theory Spec2Isabelle
  imports Complex_Main "HOL-Library.AList"
begin

section \<open>JavaScript values as the routes use them\<close>

text \<open>
  The repository has two route files: the HOD routes, with \<open>GET /overview\<close> and
  \<open>POST /faculty\<close>, and \<open>routes/analytics.js\<close>, with \<open>GET /department/:dept/stats\<close>.
  Their handlers compute over the rows that Sequelize returns. The model follows the
  handlers statement by statement, under these conventions.

  \<^item> Numbers are exact rationals: the rounding of IEEE doubles, \<open>NaN\<close> and the
    infinities are outside the model. A field that may be \<open>null\<close> or \<open>undefined\<close> is an
    \<open>option\<close>.
  \<^item> The Sequelize models, \<open>bcrypt\<close> and the authorisation middleware are not among the
    source files. A row is a record of the fields the handlers read; the queries and the
    hash are parameters of the handlers; the middleware is left out.
  \<^item> \<open>new Date().toLocaleDateString()\<close> is the parameter \<open>today\<close>.
\<close>

subsection \<open>Numbers and their decimal text\<close>

definition num_or :: "rat option \<Rightarrow> rat \<Rightarrow> rat" where
  \<comment> \<open>\<open>x || d\<close> on a number: \<open>null\<close>, \<open>undefined\<close> and \<open>0\<close> are falsy.\<close>
  "num_or x d = (case x of None \<Rightarrow> d | Some v \<Rightarrow> if v = 0 then d else v)"

definition digit_char :: "nat \<Rightarrow> char" where
  "digit_char d = ''0123456789'' ! d"

function string_of_nat :: "nat \<Rightarrow> string" where
  "string_of_nat n =
     (if n < 10 then [digit_char n] else string_of_nat (n div 10) @ [digit_char (n mod 10)])"
  by pat_completeness auto
termination
  by (relation "measure id") auto

declare string_of_nat.simps [simp del]

definition toFixed1_tenths :: "rat \<Rightarrow> nat" where
  \<comment> \<open>\<open>Number.prototype.toFixed(1)\<close>: the integer \<open>n\<close> for which \<open>n / 10\<close> is nearest to
      \<open>\<bar>x\<bar>\<close>, the larger one of two.\<close>
  "toFixed1_tenths x = nat \<lfloor>\<bar>x\<bar> * 10 + 1 / 2\<rfloor>"

definition toFixed1 :: "rat \<Rightarrow> string" where
  \<comment> \<open>The text of \<open>x.toFixed(1)\<close> (for \<open>\<bar>x\<bar>\<close> below \<open>10^21\<close>): a minus sign when
      \<open>x < 0\<close>, the integer digits, a point, one decimal digit.\<close>
  "toFixed1 x =
     (let n = toFixed1_tenths x
      in (if x < 0 then ''-'' else '''') @
         string_of_nat (n div 10) @ ''.'' @ string_of_nat (n mod 10))"

definition is_digit :: "char \<Rightarrow> bool" where
  "is_digit c = (c \<in> set ''0123456789'')"

definition digit_val :: "char \<Rightarrow> nat" where
  "digit_val c = of_char c - 48"

definition nat_of_digits :: "string \<Rightarrow> nat" where
  "nat_of_digits s = foldl (\<lambda>a c. 10 * a + digit_val c) 0 s"

type_synonym js_number = "rat option"
  \<comment> \<open>a number read from text: \<open>None\<close> is \<open>NaN\<close>, which \<open>res.json\<close> writes as \<open>null\<close>\<close>

definition parse_unsigned :: "string \<Rightarrow> js_number" where
  "parse_unsigned s =
     (let ip = takeWhile is_digit s;
          fp = (case dropWhile is_digit s of
                  [] \<Rightarrow> []
                | c # r \<Rightarrow> if c = CHR ''.'' then takeWhile is_digit r else [])
      in if ip = [] \<and> fp = [] then None
         else Some (of_nat (nat_of_digits ip) + of_nat (nat_of_digits fp) / 10 ^ length fp))"

definition parseFloat :: "string \<Rightarrow> js_number" where
  \<comment> \<open>\<open>parseFloat\<close> on a decimal literal with no exponent and no leading white space,
      which is what \<open>toFixed\<close> writes: the longest prefix that is a number.\<close>
  "parseFloat s =
     (case s of
        [] \<Rightarrow> None
      | c # r \<Rightarrow>
          if c = CHR ''-'' then map_option uminus (parse_unsigned r)
          else if c = CHR ''+'' then parse_unsigned r
          else parse_unsigned s)"

subsection \<open>Plain objects used as dictionaries\<close>

text \<open>
  An object literal \<open>{}\<close> that the code fills by \<open>obj[key] = ...\<close> is the list of its
  own properties in creation order. \<open>Object.keys\<close>, \<open>Object.values\<close> and
  \<open>Object.entries\<close> do not follow creation order alone: keys that are array indices
  (canonical numerals below \<open>2^32 - 1\<close>) come first, in ascending numeric order, and the
  other keys follow in creation order. The parameter \<open>idx\<close> gives the index a key
  denotes, if any.
\<close>

type_synonym ('k, 'v) js_object = "('k \<times> 'v) list"

definition index_rank :: "('k \<Rightarrow> nat option) \<Rightarrow> 'k \<times> 'v \<Rightarrow> nat" where
  "index_rank idx p = (case idx (fst p) of None \<Rightarrow> 0 | Some n \<Rightarrow> n)"

definition own_entries :: "('k \<Rightarrow> nat option) \<Rightarrow> ('k, 'v) js_object \<Rightarrow> ('k \<times> 'v) list" where
  "own_entries idx obj =
     sort_key (index_rank idx) (filter (\<lambda>p. idx (fst p) \<noteq> None) obj) @
     filter (\<lambda>p. idx (fst p) = None) obj"

definition id_index :: "nat \<Rightarrow> nat option" where
  \<comment> \<open>an integer id used as a property key is the numeral of itself\<close>
  "id_index n = (if n < 4294967295 then Some n else None)"

section \<open>The rows\<close>

record subject =
  subject_name :: string

record student =
  student_name :: string

text \<open>
  A \<open>CIEMark\<close> row with its joined subject and student. \<open>studentId\<close> is the integer key
  of the student row, so as a property key it is a numeral; \<open>marks\<close> and \<open>maxMarks\<close> may
  be absent; \<open>subject\<close> and \<open>student\<close> are the joined rows, \<open>None\<close> where the join found
  nothing.
\<close>

record cie_mark =
  studentId :: nat
  marks :: "rat option"
  maxMarks :: "rat option"
  status :: string
  subject :: "subject option"
  student :: "student option"

section \<open>Department statistics: \<open>GET /department/:dept/stats\<close>\<close>

record tally =
  total :: rat
  count :: nat

record department_stats =
  average :: js_number
  passPercentage :: js_number
  atRiskCount :: nat
  totalStudents :: nat

definition add_mark :: "(nat, tally) js_object \<Rightarrow> cie_mark \<Rightarrow> (nat, tally) js_object" where
  \<comment> \<open>the body of \<open>marks.forEach\<close>: create the student's tally when it is missing (a
      tally object is truthy), then add the mark to it\<close>
  "add_mark studentMarks mark =
     (let sid = studentId mark;
          sm = (case map_of studentMarks sid of
                  None \<Rightarrow> studentMarks @ [(sid, \<lparr>total = 0, count = 0\<rparr>)]
                | Some _ \<Rightarrow> studentMarks)
      in AList.map_entry sid
           (\<lambda>t. \<lparr>total = total t + num_or (marks mark) 0, count = count t + 1\<rparr>) sm)"

definition PASS_THRESHOLD :: rat where
  "PASS_THRESHOLD = 20"

definition RISK_THRESHOLD :: rat where
  "RISK_THRESHOLD = 18"

definition tally_student :: "rat \<times> nat \<times> nat \<Rightarrow> nat \<times> tally \<Rightarrow> rat \<times> nat \<times> nat" where
  \<comment> \<open>the body of \<open>studentIds.forEach\<close> on the state
      \<open>(totalAvg, passedStudents, atRiskStudents)\<close>; the entry is \<open>(sid, studentMarks[sid])\<close>\<close>
  "tally_student acc e =
     (case acc of (totalAvg, passedStudents, atRiskStudents) \<Rightarrow>
        let avg = total (snd e) / of_nat (count (snd e))
        in (totalAvg + avg,
            if avg \<ge> PASS_THRESHOLD then passedStudents + 1 else passedStudents,
            if avg < RISK_THRESHOLD then atRiskStudents + 1 else atRiskStudents))"

definition department_stats :: "cie_mark list \<Rightarrow> department_stats" where
  "department_stats ms =
     (if length ms = 0
      then \<lparr>average = Some 0, passPercentage = Some 0, atRiskCount = 0, totalStudents = 0\<rparr>
      else
        let studentMarks = foldl add_mark [] ms;
            entries = own_entries id_index studentMarks;
            studentIds = map fst entries;
            totalStudents = length studentIds
        in (case foldl tally_student (0, 0, 0) entries of
              (totalAvg, passedStudents, atRiskStudents) \<Rightarrow>
                let departmentAverage =
                      (if totalStudents > 0
                       then toFixed1 (totalAvg / of_nat totalStudents) else ''0'');
                    passPercentage =
                      (if totalStudents > 0
                       then toFixed1 (of_nat passedStudents / of_nat totalStudents * 100)
                       else ''0'')
                in \<lparr>average = parseFloat departmentAverage,
                    passPercentage = parseFloat passPercentage,
                    atRiskCount = atRiskStudents,
                    totalStudents = totalStudents\<rparr>))"

section \<open>The HOD overview: \<open>GET /overview\<close>\<close>

subsection \<open>Grade distribution\<close>

record grade_counts =
  gradeA :: nat
  gradeB :: nat
  gradeC :: nat
  gradeD :: nat
  gradeF :: nat

definition percent :: "cie_mark \<Rightarrow> rat" where
  \<comment> \<open>\<open>(score / maxMarks) * 100\<close> with \<open>score = m.marks || 0\<close> and
      \<open>maxMarks = m.maxMarks || 50\<close>; the divisor is never 0\<close>
  "percent m = num_or (marks m) 0 / num_or (maxMarks m) 50 * 100"

definition grade_mark :: "grade_counts \<Rightarrow> cie_mark \<Rightarrow> grade_counts" where
  "grade_mark g m =
     (if percent m \<ge> 80 then g\<lparr>gradeA := gradeA g + 1\<rparr>
      else if percent m \<ge> 60 then g\<lparr>gradeB := gradeB g + 1\<rparr>
      else if percent m \<ge> 40 then g\<lparr>gradeC := gradeC g + 1\<rparr>
      else if percent m \<ge> 20 then g\<lparr>gradeD := gradeD g + 1\<rparr>
      else g\<lparr>gradeF := gradeF g + 1\<rparr>)"

definition grade_marks :: "cie_mark list \<Rightarrow> grade_counts" where
  "grade_marks ms =
     foldl grade_mark \<lparr>gradeA = 0, gradeB = 0, gradeC = 0, gradeD = 0, gradeF = 0\<rparr> ms"

record grade_distribution =
  labels :: "string list"
  data :: "nat list"

definition gradeDistribution :: "cie_mark list \<Rightarrow> grade_distribution" where
  "gradeDistribution ms =
     (let g = grade_marks ms
      in \<lparr>labels = [''A (80%+)'', ''B (60-79%)'', ''C (40-59%)'', ''D (20-39%)'', ''F (<20%)''],
          data = [gradeA g, gradeB g, gradeC g, gradeD g, gradeF g]\<rparr>)"

subsection \<open>Alerts on students\<close>

text \<open>An alert \<open>{ id, type, message, date }\<close>.\<close>

record alert =
  alert_id :: nat
  alert_type :: string
  message :: string
  date :: string

text \<open>An entry \<open>{ student, scores, subjects }\<close> of \<open>studentMarksMap\<close>.\<close>

record student_entry =
  entry_student :: "student option"
  scores :: "rat list"
  subjects :: "string list"

definition set_add :: "string \<Rightarrow> string list \<Rightarrow> string list" where
  \<comment> \<open>\<open>Set.prototype.add\<close>, the set kept as the list of its members in insertion order\<close>
  "set_add x xs = (if x \<in> set xs then xs else xs @ [x])"

definition add_student_mark ::
  "(nat, student_entry) js_object \<Rightarrow> cie_mark \<Rightarrow> (nat, student_entry) js_object" where
  \<comment> \<open>the body of the second \<open>marks.forEach\<close>: the entry is created from the first row of
      the student, then every row appends its score and its subject's name\<close>
  "add_student_mark studentMarksMap m =
     (let key = studentId m;
          smm = (case map_of studentMarksMap key of
                   None \<Rightarrow>
                     studentMarksMap @
                       [(key, \<lparr>entry_student = student m, scores = [], subjects = []\<rparr>)]
                 | Some _ \<Rightarrow> studentMarksMap)
      in AList.map_entry key
           (\<lambda>e. \<lparr>entry_student = entry_student e,
                 scores = scores e @ [num_or (marks m) 0],
                 subjects = (case subject m of
                               None \<Rightarrow> subjects e
                             | Some s \<Rightarrow> set_add (subject_name s) (subjects e))\<rparr>) smm)"

definition student_warning :: "string \<Rightarrow> nat \<Rightarrow> student \<Rightarrow> rat \<Rightarrow> alert" where
  "student_warning today i s avg =
     \<lparr>alert_id = i, alert_type = ''warning'',
      message = student_name s @ '' has low average ('' @ toFixed1 avg @ ''/50)'',
      date = today\<rparr>"

definition entry_avg :: "student_entry \<Rightarrow> rat" where
  \<comment> \<open>\<open>entry.scores.reduce((a, b) => a + b, 0) / entry.scores.length\<close>\<close>
  "entry_avg entry = foldl (\<lambda>a b. a + b) 0 (scores entry) / of_nat (length (scores entry))"

definition check_student ::
  "string \<Rightarrow> nat \<times> alert list \<times> nat \<Rightarrow> student_entry \<Rightarrow> nat \<times> alert list \<times> nat" where
  \<comment> \<open>the body of \<open>Object.values(studentMarksMap).forEach\<close> on the state
      \<open>(atRisk, alerts, alertId)\<close>, where \<open>atRisk\<close> is the handler's local
      \<open>atRiskCount\<close>\<close>
  "check_student today st entry =
     (case st of (atRisk, alerts, alertId) \<Rightarrow>
        let avg = entry_avg entry
        in if avg < 18
           then (case entry_student entry of
                   None \<Rightarrow> st
                 | Some s \<Rightarrow>
                     if length alerts < 5
                     then (atRisk + 1,
                           alerts @ [student_warning today alertId s avg], alertId + 1)
                     else (atRisk + 1, alerts, alertId))
           else st)"

definition critical_alert :: "string \<Rightarrow> nat \<Rightarrow> nat \<Rightarrow> alert" where
  "critical_alert today i atRisk =
     \<lparr>alert_id = i, alert_type = ''critical'',
      message = string_of_nat atRisk @ '' students are at risk with below-threshold marks'',
      date = today\<rparr>"

definition check_cohort :: "string \<Rightarrow> nat \<times> alert list \<times> nat \<Rightarrow> alert list \<times> nat" where
  \<comment> \<open>\<open>if (atRiskCount > 5) alerts.unshift(...)\<close>\<close>
  "check_cohort today st =
     (case st of (atRisk, alerts, alertId) \<Rightarrow>
        if atRisk > 5
        then (critical_alert today alertId atRisk # alerts, alertId + 1)
        else (alerts, alertId))"

subsection \<open>Alerts on subjects\<close>

text \<open>
  \<open>subjectPerf\<close> is keyed by the subject's name, a string. A plain object inherits the
  members of \<open>Object.prototype\<close>: for a name among them \<open>subjectPerf[name]\<close> is the
  inherited member, which is truthy, so no own property is created and the two updates
  land on the inherited object. \<open>Object.entries\<close> lists own properties only.
\<close>

definition object_prototype_names :: "string list" where
  "object_prototype_names =
     [''constructor'', ''__defineGetter__'', ''__defineSetter__'', ''hasOwnProperty'',
      ''__lookupGetter__'', ''__lookupSetter__'', ''isPrototypeOf'', ''propertyIsEnumerable'',
      ''toString'', ''valueOf'', ''__proto__'', ''toLocaleString'']"

definition array_index :: "string \<Rightarrow> nat option" where
  \<comment> \<open>a string key is an array index when it is the canonical numeral of a number
      below \<open>2^32 - 1\<close>\<close>
  "array_index s =
     (if s \<noteq> [] \<and> list_all is_digit s \<and> (s = ''0'' \<or> hd s \<noteq> CHR ''0'') \<and>
         nat_of_digits s < 4294967295
      then Some (nat_of_digits s) else None)"

definition add_subject_mark ::
  "(string, tally) js_object \<Rightarrow> cie_mark \<Rightarrow> (string, tally) js_object" where
  "add_subject_mark subjectPerf m =
     (case subject m of
        None \<Rightarrow> subjectPerf
      | Some s \<Rightarrow>
          let name = subject_name s;
              add = (\<lambda>d. \<lparr>total = total d + num_or (marks m) 0, count = count d + 1\<rparr>)
          in (case map_of subjectPerf name of
                Some _ \<Rightarrow> AList.map_entry name add subjectPerf
              | None \<Rightarrow>
                  if name \<in> set object_prototype_names then subjectPerf
                  else AList.map_entry name add
                         (subjectPerf @ [(name, \<lparr>total = 0, count = 0\<rparr>)])))"

definition subject_warning :: "string \<Rightarrow> nat \<Rightarrow> string \<Rightarrow> rat \<Rightarrow> alert" where
  "subject_warning today i name avg =
     \<lparr>alert_id = i, alert_type = ''warning'',
      message = name @ '' has low class average ('' @ toFixed1 avg @ ''/50)'',
      date = today\<rparr>"

definition check_subject ::
  "string \<Rightarrow> alert list \<times> nat \<Rightarrow> string \<times> tally \<Rightarrow> alert list \<times> nat" where
  \<comment> \<open>the body of \<open>Object.entries(subjectPerf).forEach\<close> on the state \<open>(alerts, alertId)\<close>\<close>
  "check_subject today st e =
     (case st of (alerts, alertId) \<Rightarrow>
        let avg = total (snd e) / of_nat (count (snd e))
        in if avg < 25
           then (alerts @ [subject_warning today alertId (fst e) avg], alertId + 1)
           else st)"

subsection \<open>Pending rows, the all-clear alert and the response\<close>

definition pending_alert :: "string \<Rightarrow> nat \<Rightarrow> nat \<Rightarrow> alert" where
  "pending_alert today i pendingCount =
     \<lparr>alert_id = i, alert_type = ''info'',
      message = string_of_nat pendingCount @ '' mark entries are still pending review'',
      date = today\<rparr>"

definition check_pending :: "string \<Rightarrow> cie_mark list \<Rightarrow> alert list \<times> nat \<Rightarrow> alert list \<times> nat" where
  "check_pending today ms st =
     (case st of (alerts, alertId) \<Rightarrow>
        let pendingCount = length (filter (\<lambda>m. status m = ''PENDING'') ms)
        in if pendingCount > 0
           then (alerts @ [pending_alert today alertId pendingCount], alertId + 1)
           else st)"

definition all_clear_alert :: "string \<Rightarrow> alert" where
  "all_clear_alert today =
     \<lparr>alert_id = 1, alert_type = ''info'',
      message = ''All department metrics are within acceptable range'',
      date = today\<rparr>"

definition student_stage :: "string \<Rightarrow> cie_mark list \<Rightarrow> nat \<times> alert list \<times> nat" where
  \<comment> \<open>from \<open>const alerts = []; let alertId = 1\<close> to the end of the loop over
      \<open>Object.values(studentMarksMap)\<close>: the state \<open>(atRiskCount, alerts, alertId)\<close>\<close>
  "student_stage today ms =
     (let studentMarksMap = foldl add_student_mark [] ms
      in foldl (check_student today) (0, [], 1)
           (map snd (own_entries id_index studentMarksMap)))"

definition subject_stage :: "string \<Rightarrow> cie_mark list \<Rightarrow> alert list \<times> nat \<Rightarrow> alert list \<times> nat" where
  \<comment> \<open>the grouping by subject name and the loop over \<open>Object.entries(subjectPerf)\<close>\<close>
  "subject_stage today ms st =
     (let subjectPerf = foldl add_subject_mark [] ms
      in foldl (check_subject today) st (own_entries array_index subjectPerf))"

definition generate_alerts :: "string \<Rightarrow> cie_mark list \<Rightarrow> alert list" where
  \<comment> \<open>step 3 of the handler, up to the all-clear alert; \<open>today\<close> is
      \<open>new Date().toLocaleDateString()\<close>\<close>
  "generate_alerts today ms =
     (let st1 = student_stage today ms;
          st2 = check_cohort today st1;
          st3 = subject_stage today ms st2;
          st4 = check_pending today ms st3;
          alerts = fst st4
      in if length alerts = 0 then alerts @ [all_clear_alert today] else alerts)"

record overview =
  ov_gradeDistribution :: grade_distribution
  ov_alerts :: "alert list"
  ov_facultyCount :: nat

definition overview :: "string \<Rightarrow> cie_mark list \<Rightarrow> nat \<Rightarrow> overview" where
  "overview today ms facultyCount =
     \<lparr>ov_gradeDistribution = gradeDistribution ms,
      ov_alerts = generate_alerts today ms,
      ov_facultyCount = facultyCount\<rparr>"

datatype 'a response = Reply nat 'a | Failure nat string
  \<comment> \<open>\<open>res.status(n).json(body)\<close>; a failure's body is \<open>{ message }\<close>\<close>

definition overview_handler ::
  "string \<Rightarrow> (string \<Rightarrow> cie_mark list option) \<Rightarrow> (string \<Rightarrow> nat option) \<Rightarrow> string option \<Rightarrow>
   overview response" where
  \<comment> \<open>The handler after the authorisation middleware. \<open>findMarks dept\<close> is
      \<open>CIEMark.findAll\<close> with the subject's department \<open>dept\<close>, \<open>countFaculty dept\<close> is
      \<open>User.count\<close> of the faculty of \<open>dept\<close>; \<open>None\<close> is a rejected promise, which the
      \<open>catch\<close> turns into status 500. \<open>department\<close> is \<open>req.query.department\<close>.\<close>
  "overview_handler today findMarks countFaculty department =
     (let dept = (case department of None \<Rightarrow> ''CS'' | Some d \<Rightarrow> if d = '''' then ''CS'' else d)
      in case findMarks dept of
           None \<Rightarrow> Failure 500 ''Internal server error''
         | Some ms \<Rightarrow>
             (case countFaculty dept of
                None \<Rightarrow> Failure 500 ''Internal server error''
              | Some facultyCount \<Rightarrow> Reply 200 (overview today ms facultyCount)))"

section \<open>Adding a faculty member: \<open>POST /faculty\<close>\<close>

text \<open>
  The request body, the row handed to \<open>User.create\<close> and the body of the 201 response.
  The two collaborators are parameters of the handler: \<open>hash\<close> is \<open>bcrypt.hash\<close> and
  \<open>create\<close> is \<open>User.create\<close> acting on the store; either may reject, with an optional
  message.
\<close>

record faculty_body =
  username :: "string option"
  fullName :: "string option"
  email :: "string option"
  password :: "string option"
  department :: "string option"
  designation :: "string option"

record user_row =
  user_username :: "string option"
  user_fullName :: "string option"
  user_email :: "string option"
  user_password :: string
  user_role :: string
  user_department :: "string option"
  user_associatedId :: "string option"

record created =
  created_message :: string
  created_id :: nat

definition str_or :: "string option \<Rightarrow> string \<Rightarrow> string" where
  \<comment> \<open>\<open>x || d\<close> on a string: \<open>undefined\<close>, \<open>null\<close> and the empty string are falsy\<close>
  "str_or x d = (case x of None \<Rightarrow> d | Some v \<Rightarrow> if v = '''' then d else v)"

definition post_faculty ::
  "(string \<Rightarrow> nat \<Rightarrow> string option + string) \<Rightarrow>
   (user_row \<Rightarrow> 'db \<Rightarrow> string option + nat \<times> 'db) \<Rightarrow>
   faculty_body \<Rightarrow> 'db \<Rightarrow> created response \<times> 'db" where
  \<comment> \<open>the handler after the middleware, on the store \<open>db\<close>: the response and the store
      afterwards\<close>
  "post_faculty hash create body db =
     (case hash (str_or (password body) ''password123'') 10 of
        Inl error \<Rightarrow> (Failure 500 (str_or error ''Internal server error''), db)
      | Inr hashedPassword \<Rightarrow>
          (case create
                  \<lparr>user_username = username body,
                   user_fullName = fullName body,
                   user_email = email body,
                   user_password = hashedPassword,
                   user_role = ''FACULTY'',
                   user_department = department body,
                   user_associatedId = username body\<rparr> db of
             Inl error \<Rightarrow> (Failure 500 (str_or error ''Internal server error''), db)
           | Inr (newId, db') \<Rightarrow>
               (Reply 201
                  \<lparr>created_message = ''Faculty created successfully'', created_id = newId\<rparr>,
                db')))"

section \<open>Vocabulary of the specification\<close>

text \<open>
  The notions the specification speaks in, defined on the list of rows alone and not on
  the dictionaries the handlers build.
\<close>

subsection \<open>Rounding and order\<close>

definition rounded_to_1_decimal :: "rat \<Rightarrow> rat \<Rightarrow> bool" where
  \<comment> \<open>\<open>r\<close> is \<open>x\<close> rounded to one decimal: a multiple of \<open>0.1\<close> nearest to \<open>x\<close>\<close>
  "rounded_to_1_decimal r x \<longleftrightarrow> r * 10 \<in> \<int> \<and> \<bar>r - x\<bar> \<le> 1 / 20"

definition fixed1_value :: "rat \<Rightarrow> rat" where
  \<comment> \<open>the number that \<open>x.toFixed(1)\<close> denotes: half-way cases go away from zero\<close>
  "fixed1_value x = (if x < 0 then - 1 else 1) * of_nat (toFixed1_tenths x) / 10"

primrec first_seen :: "'a list \<Rightarrow> 'a list" where
  \<comment> \<open>the distinct elements, in the order of their first appearance\<close>
  "first_seen [] = []"
| "first_seen (x # xs) = x # filter (\<lambda>y. y \<noteq> x) (first_seen xs)"

definition key_rank :: "('k \<Rightarrow> nat option) \<Rightarrow> 'k \<Rightarrow> nat" where
  "key_rank idx k = (case idx k of None \<Rightarrow> 0 | Some n \<Rightarrow> n)"

definition key_order :: "('k \<Rightarrow> nat option) \<Rightarrow> 'k list \<Rightarrow> 'k list" where
  \<comment> \<open>the order in which \<open>Object.keys\<close> lists keys created in the order \<open>ks\<close>\<close>
  "key_order idx ks =
     sort_key (key_rank idx) (filter (\<lambda>k. idx k \<noteq> None) ks) @ filter (\<lambda>k. idx k = None) ks"

subsection \<open>Students\<close>

text \<open>
  A student is at risk when the mean of \<open>marks || 0\<close> over the student's rows is below
  18 and the student object joined to the student's first row is present.
\<close>

definition score :: "cie_mark \<Rightarrow> rat" where
  "score m = num_or (marks m) 0"

definition records_of :: "cie_mark list \<Rightarrow> nat \<Rightarrow> cie_mark list" where
  "records_of ms s = filter (\<lambda>m. studentId m = s) ms"

definition student_mean :: "cie_mark list \<Rightarrow> nat \<Rightarrow> rat" where
  "student_mean ms s = sum_list (map score (records_of ms s)) / of_nat (length (records_of ms s))"

definition joined_student :: "cie_mark list \<Rightarrow> nat \<Rightarrow> student option" where
  "joined_student ms s = (case records_of ms s of [] \<Rightarrow> None | m # _ \<Rightarrow> student m)"

definition student_keys :: "cie_mark list \<Rightarrow> nat list" where
  \<comment> \<open>the order in which \<open>Object.values(studentMarksMap)\<close> lists the students: the ids
      below \<open>2^32 - 1\<close> ascending, then the other ids as first seen\<close>
  "student_keys ms =
     (let seen = first_seen (map studentId ms)
      in sort (filter (\<lambda>s. s < 4294967295) seen) @ filter (\<lambda>s. \<not> s < 4294967295) seen)"

definition at_risk :: "cie_mark list \<Rightarrow> nat \<Rightarrow> bool" where
  "at_risk ms s \<longleftrightarrow> student_mean ms s < 18 \<and> joined_student ms s \<noteq> None"

definition at_risk_students :: "cie_mark list \<Rightarrow> nat list" where
  "at_risk_students ms = filter (at_risk ms) (student_keys ms)"

definition warning_about :: "string \<Rightarrow> cie_mark list \<Rightarrow> nat \<Rightarrow> nat \<Rightarrow> alert" where
  "warning_about today ms i s =
     \<lparr>alert_id = i, alert_type = ''warning'',
      message = (case joined_student ms s of None \<Rightarrow> '''' | Some st \<Rightarrow> student_name st) @
                '' has low average ('' @ toFixed1 (student_mean ms s) @ ''/50)'',
      date = today\<rparr>"

definition student_warnings :: "string \<Rightarrow> cie_mark list \<Rightarrow> alert list" where
  "student_warnings today ms =
     map (\<lambda>(i, s). warning_about today ms i s) (enumerate 1 (take 5 (at_risk_students ms)))"

subsection \<open>Subjects\<close>

text \<open>
  \<open>subject_key m\<close> is the key under which the row \<open>m\<close> is tallied in \<open>subjectPerf\<close>:
  the name of its subject, unless the row has no subject or the name is a member of
  \<open>Object.prototype\<close>.
\<close>

definition subject_key :: "cie_mark \<Rightarrow> string option" where
  "subject_key m =
     (case subject m of
        None \<Rightarrow> None
      | Some s \<Rightarrow>
          if subject_name s \<in> set object_prototype_names then None else Some (subject_name s))"

definition subject_rows :: "cie_mark list \<Rightarrow> string \<Rightarrow> cie_mark list" where
  "subject_rows ms n = filter (\<lambda>m. subject_key m = Some n) ms"

definition subject_mean :: "cie_mark list \<Rightarrow> string \<Rightarrow> rat" where
  "subject_mean ms n =
     sum_list (map score (subject_rows ms n)) / of_nat (length (subject_rows ms n))"

definition subject_keys :: "cie_mark list \<Rightarrow> string list" where
  "subject_keys ms = key_order array_index (first_seen (List.map_filter subject_key ms))"

definition low_subjects :: "cie_mark list \<Rightarrow> string list" where
  "low_subjects ms = filter (\<lambda>n. subject_mean ms n < 25) (subject_keys ms)"

definition subject_warnings :: "string \<Rightarrow> cie_mark list \<Rightarrow> nat \<Rightarrow> alert list" where
  "subject_warnings today ms i =
     map (\<lambda>(j, n). subject_warning today j n (subject_mean ms n))
       (enumerate i (low_subjects ms))"

subsection \<open>The alert list\<close>

definition pending_count :: "cie_mark list \<Rightarrow> nat" where
  "pending_count ms = length (filter (\<lambda>m. status m = ''PENDING'') ms)"

definition cohort_alerts :: "string \<Rightarrow> cie_mark list \<Rightarrow> alert list" where
  "cohort_alerts today ms =
     (if 5 < length (at_risk_students ms)
      then [critical_alert today 6 (length (at_risk_students ms))] else [])"

definition pending_alerts :: "string \<Rightarrow> cie_mark list \<Rightarrow> nat \<Rightarrow> alert list" where
  "pending_alerts today ms i =
     (if 0 < pending_count ms then [pending_alert today i (pending_count ms)] else [])"

definition core_alerts :: "string \<Rightarrow> cie_mark list \<Rightarrow> alert list" where
  "core_alerts today ms =
     cohort_alerts today ms @ student_warnings today ms @
     subject_warnings today ms
       (length (cohort_alerts today ms) + length (student_warnings today ms) + 1)"

subsection \<open>The faculty row\<close>

definition faculty_row :: "faculty_body \<Rightarrow> string \<Rightarrow> user_row" where
  "faculty_row body hashed =
     \<lparr>user_username = username body, user_fullName = fullName body,
      user_email = email body, user_password = hashed, user_role = ''FACULTY'',
      user_department = department body, user_associatedId = username body\<rparr>"

definition effective_password :: "faculty_body \<Rightarrow> string" where
  "effective_password body =
     (case password body of
        None \<Rightarrow> ''password123''
      | Some p \<Rightarrow> if p = '''' then ''password123'' else p)"

subsection \<open>Grouping, as the proofs see it\<close>

text \<open>
  The three loops that fill a dictionary follow one scheme: a row with key \<open>k\<close> creates
  the entry \<open>init\<close> of \<open>k\<close> when it is missing and then updates it. The dictionary built
  from no entries is the graph of \<open>group_value\<close> over the keys as first seen.
\<close>

definition group_step ::
  "('a \<Rightarrow> 'k option) \<Rightarrow> ('a \<Rightarrow> 'v) \<Rightarrow> ('a \<Rightarrow> 'v \<Rightarrow> 'v) \<Rightarrow> ('k, 'v) js_object \<Rightarrow> 'a \<Rightarrow>
   ('k, 'v) js_object" where
  "group_step key init upd obj x =
     (case key x of
        None \<Rightarrow> obj
      | Some k \<Rightarrow>
          AList.map_entry k (upd x)
            (case map_of obj k of None \<Rightarrow> obj @ [(k, init x)] | Some _ \<Rightarrow> obj))"

definition rows_with :: "('a \<Rightarrow> 'k option) \<Rightarrow> 'a list \<Rightarrow> 'k \<Rightarrow> 'a list" where
  "rows_with key xs k = filter (\<lambda>x. key x = Some k) xs"

definition group_value :: "('a \<Rightarrow> 'v) \<Rightarrow> ('a \<Rightarrow> 'v \<Rightarrow> 'v) \<Rightarrow> 'a list \<Rightarrow> 'v" where
  "group_value init upd rows = foldl (\<lambda>v x. upd x v) (init (hd rows)) rows"

definition tally_upd :: "cie_mark \<Rightarrow> tally \<Rightarrow> tally" where
  "tally_upd m d = \<lparr>total = total d + num_or (marks m) 0, count = count d + 1\<rparr>"

definition tally_of :: "cie_mark list \<Rightarrow> nat \<Rightarrow> tally" where
  "tally_of ms s =
     \<lparr>total = sum_list (map score (records_of ms s)), count = length (records_of ms s)\<rparr>"

definition student_init :: "cie_mark \<Rightarrow> student_entry" where
  "student_init m = \<lparr>entry_student = student m, scores = [], subjects = []\<rparr>"

definition student_upd :: "cie_mark \<Rightarrow> student_entry \<Rightarrow> student_entry" where
  "student_upd m e =
     \<lparr>entry_student = entry_student e,
      scores = scores e @ [num_or (marks m) 0],
      subjects = (case subject m of
                    None \<Rightarrow> subjects e
                  | Some s \<Rightarrow> set_add (subject_name s) (subjects e))\<rparr>"

definition entry_of :: "cie_mark list \<Rightarrow> nat \<Rightarrow> student_entry" where
  "entry_of ms s = group_value student_init student_upd (records_of ms s)"

definition subject_tally :: "cie_mark list \<Rightarrow> string \<Rightarrow> tally" where
  "subject_tally ms n =
     group_value (\<lambda>_. \<lparr>total = 0, count = 0\<rparr>) tally_upd (subject_rows ms n)"

section \<open>Example inputs\<close>

text \<open>
Rows and collaborators used where a theorem is applied to a concrete input.
\<close>

definition mark_row :: "nat \<Rightarrow> rat \<Rightarrow> cie_mark" where
  "mark_row sid v =
     \<lparr>studentId = sid, marks = Some v, maxMarks = Some 50, status = ''APPROVED'',
      subject = None, student = None\<rparr>"

definition stats_example :: "cie_mark list" where
  "stats_example = [mark_row 7 10, mark_row 3 30, mark_row 7 20]"

definition four_students :: "cie_mark list" where
  "four_students = [mark_row 1 25, mark_row 2 19, mark_row 3 15, mark_row 4 30]"

definition four_students_many_rows :: "cie_mark list" where
  "four_students_many_rows =
     [mark_row 12 20, mark_row 5 19, mark_row 12 30, mark_row 8 10, mark_row 40 30,
      mark_row 8 20, mark_row 40 30]"

definition overview_row :: "nat \<Rightarrow> rat \<Rightarrow> string \<Rightarrow> string option \<Rightarrow> string option \<Rightarrow> cie_mark" where
  "overview_row sid v st subj stud =
     \<lparr>studentId = sid, marks = Some v, maxMarks = Some 50, status = st,
      subject = map_option (\<lambda>n. \<lparr>subject_name = n\<rparr>) subj,
      student = map_option (\<lambda>n. \<lparr>student_name = n\<rparr>) stud\<rparr>"

definition six_unjoined :: "cie_mark list" where
  "six_unjoined = map (\<lambda>i. overview_row i 10 ''APPROVED'' None None) [1, 2, 3, 4, 5, 6]"

definition seven_at_risk :: "cie_mark list" where
  "seven_at_risk =
     map (\<lambda>(i, n). overview_row i 10 ''APPROVED'' None (Some n))
       [(9, ''Asha''), (3, ''Bala''), (7, ''Chitra''), (1, ''Dev''), (8, ''Esha''),
        (2, ''Farid''), (5, ''Gita'')]"

definition six_at_risk :: "cie_mark list" where
  "six_at_risk =
     map (\<lambda>(i, v, n). overview_row i v ''APPROVED'' None (Some n))
       [(14, 10, ''Asha''), (3, 0, ''Bala''), (27, 17, ''Chitra''), (3, 5, ''Bala''),
        (8, 12, ''Dev''), (21, 9, ''Esha''), (5, 16, ''Farid'')]"

definition two_students :: "cie_mark list" where
  "two_students =
     [overview_row 2 10 ''APPROVED'' None (Some ''Bala''),
      overview_row 1 12 ''APPROVED'' None (Some ''Asha'')]"

definition three_pending :: "cie_mark list" where
  "three_pending =
     [overview_row 4 30 ''PENDING'' (Some ''Maths'') (Some ''Asha''),
      overview_row 9 41 ''PENDING'' (Some ''Maths'') (Some ''Bala''),
      overview_row 4 28 ''PENDING'' (Some ''Physics'') (Some ''Asha''),
      overview_row 9 35 ''APPROVED'' (Some ''Physics'') (Some ''Bala'')]"

definition one_unjoined :: "cie_mark list" where
  "one_unjoined =
     [overview_row 6 5 ''APPROVED'' None None,
      overview_row 2 11 ''APPROVED'' None (Some ''Asha''),
      overview_row 6 7 ''APPROVED'' None None]"

definition one_subject :: "cie_mark list" where
  "one_subject =
     [overview_row 1 10 ''APPROVED'' (Some ''Maths'') None,
      overview_row 2 10 ''APPROVED'' (Some ''Maths'') None,
      overview_row 3 10 ''APPROVED'' (Some ''Maths'') None]"

definition example_hash :: "string \<Rightarrow> nat \<Rightarrow> string option + string" where
  "example_hash p rounds = Inr (''hashed:'' @ p)"

definition example_create :: "user_row \<Rightarrow> user_row list \<Rightarrow> string option + nat \<times> user_row list" where
  "example_create r db = Inr (length db + 1, db @ [r])"

definition example_body :: "string option \<Rightarrow> faculty_body" where
  "example_body pw =
     \<lparr>username = Some ''asha'', fullName = Some ''Asha Rao'', email = Some ''asha@example.org'',
      password = pw, department = Some ''CS'', designation = Some ''Lecturer''\<rparr>"

section \<open>Numbers and text\<close>

text \<open>
  What \<open>toFixed(1)\<close> writes, \<open>parseFloat\<close> reads back: the number \<open>fixed1_value x\<close>,
  which is within \<open>0.05\<close> of \<open>x\<close>.
\<close>

lemma digit_char_cases:
  assumes "d < 10"
  shows "is_digit (digit_char d) \<and> digit_val (digit_char d) = d"
proof -
  from assms have "d \<in> {0, 1, 2, 3, 4, 5, 6, 7, 8, 9}" by auto
  then show ?thesis
    by (auto simp: digit_char_def is_digit_def digit_val_def)
qed

lemma string_of_nat_small: "n < 10 \<Longrightarrow> string_of_nat n = [digit_char n]"
  by (simp add: string_of_nat.simps)

lemma string_of_nat_digits: "list_all is_digit (string_of_nat n)"
proof (induction n rule: string_of_nat.induct)
  case (1 n)
  show ?case
  proof (cases "n < 10")
    case True
    then show ?thesis by (simp add: string_of_nat_small digit_char_cases)
  next
    case False
    then have "list_all is_digit (string_of_nat (n div 10))" using 1 by simp
    moreover have "is_digit (digit_char (n mod 10))" by (simp add: digit_char_cases)
    ultimately show ?thesis using False
      by (subst string_of_nat.simps) simp
  qed
qed

lemma string_of_nat_nonempty: "string_of_nat n \<noteq> []"
  by (subst string_of_nat.simps) simp

lemma nat_of_digits_snoc: "nat_of_digits (s @ [c]) = 10 * nat_of_digits s + digit_val c"
  by (simp add: nat_of_digits_def)

lemma nat_of_digits_string_of_nat: "nat_of_digits (string_of_nat n) = n"
proof (induction n rule: string_of_nat.induct)
  case (1 n)
  show ?case
  proof (cases "n < 10")
    case True
    then show ?thesis
      by (simp add: string_of_nat_small nat_of_digits_def digit_char_cases)
  next
    case False
    then have "nat_of_digits (string_of_nat (n div 10)) = n div 10" using 1 by simp
    then show ?thesis using False
      by (subst string_of_nat.simps) (simp add: nat_of_digits_snoc digit_char_cases)
  qed
qed

lemma takeWhile_digits_point:
  "list_all is_digit ds \<Longrightarrow> takeWhile is_digit (ds @ CHR ''.'' # r) = ds"
  by (induction ds) (simp_all add: is_digit_def)

lemma dropWhile_digits_point:
  "list_all is_digit ds \<Longrightarrow> dropWhile is_digit (ds @ CHR ''.'' # r) = CHR ''.'' # r"
  by (induction ds) (simp_all add: is_digit_def)

lemma parse_unsigned_fixed1:
  assumes "b < 10"
  shows "parse_unsigned (string_of_nat a @ ''.'' @ string_of_nat b) =
           Some (of_nat a + of_nat b / 10)"
proof -
  have sb: "string_of_nat b = [digit_char b]" using assms by (rule string_of_nat_small)
  have db: "is_digit (digit_char b)" using assms by (simp add: digit_char_cases)
  have vb: "nat_of_digits [digit_char b] = b"
    using assms by (simp add: nat_of_digits_def digit_char_cases)
  show ?thesis
    unfolding parse_unsigned_def sb
    by (simp add: takeWhile_digits_point dropWhile_digits_point string_of_nat_digits
        string_of_nat_nonempty nat_of_digits_string_of_nat db vb)
qed

lemma string_of_nat_hd_digit: "is_digit (hd (string_of_nat n))"
  using string_of_nat_digits [of n] string_of_nat_nonempty [of n]
  by (cases "string_of_nat n") simp_all

lemma tenths_split: "of_nat (n div 10) + of_nat (n mod 10) / 10 = (of_nat n :: rat) / 10"
proof -
  have "(of_nat n :: rat) = of_nat (10 * (n div 10) + n mod 10)" by simp
  also have "\<dots> = 10 * of_nat (n div 10) + of_nat (n mod 10)"
    by (simp only: of_nat_add of_nat_mult of_nat_numeral)
  finally show ?thesis by simp
qed

lemma parseFloat_toFixed1: "parseFloat (toFixed1 x) = Some (fixed1_value x)"
proof -
  define n where "n = toFixed1_tenths x"
  define body where "body = string_of_nat (n div 10) @ ''.'' @ string_of_nat (n mod 10)"
  have pb: "parse_unsigned body = Some (of_nat n / 10)"
    unfolding body_def using parse_unsigned_fixed1 [of "n mod 10" "n div 10"]
    by (simp only: tenths_split)
  obtain c r where cr: "body = c # r" "is_digit c"
    using string_of_nat_hd_digit [of "n div 10"] string_of_nat_nonempty [of "n div 10"]
    unfolding body_def by (cases "string_of_nat (n div 10)") auto
  then have cne: "c \<noteq> CHR ''-''" "c \<noteq> CHR ''+''" by (auto simp: is_digit_def)
  show ?thesis
  proof (cases "x < 0")
    case True
    then have "toFixed1 x = CHR ''-'' # body"
      by (simp add: toFixed1_def n_def body_def Let_def)
    then show ?thesis using True pb
      by (simp add: parseFloat_def fixed1_value_def n_def)
  next
    case False
    then have "toFixed1 x = body"
      by (simp add: toFixed1_def n_def body_def Let_def)
    then show ?thesis using False pb cr cne
      by (simp add: parseFloat_def fixed1_value_def n_def)
  qed
qed

lemma fixed1_value_near: "\<bar>fixed1_value x - x\<bar> \<le> 1 / 20"
proof -
  define y where "y = \<bar>x\<bar> * 10 + 1 / 2"
  define f :: rat where "f = of_int \<lfloor>y\<rfloor>"
  have y0: "0 \<le> y" by (simp add: y_def)
  then have fl0: "0 \<le> \<lfloor>y\<rfloor>" by simp
  have t: "(of_nat (toFixed1_tenths x) :: rat) = f"
    using fl0 by (simp add: toFixed1_tenths_def y_def f_def)
  have b1: "f \<le> y" and b2: "y < f + 1"
    unfolding f_def by linarith+
  show ?thesis
  proof (cases "x < 0")
    case True
    then have v: "fixed1_value x = - (f / 10)"
      by (simp add: fixed1_value_def t)
    have yx: "y = - x * 10 + 1 / 2" using True by (simp add: y_def)
    show ?thesis unfolding v using b1 b2 yx by linarith
  next
    case False
    then have v: "fixed1_value x = f / 10"
      by (simp add: fixed1_value_def t)
    have yx: "y = x * 10 + 1 / 2" using False by (simp add: y_def)
    show ?thesis unfolding v using b1 b2 yx by linarith
  qed
qed

lemma fixed1_value_tenth: "fixed1_value x * 10 \<in> \<int>"
  by (simp add: fixed1_value_def)

lemma rounded_fixed1: "rounded_to_1_decimal (fixed1_value x) x"
  unfolding rounded_to_1_decimal_def using fixed1_value_near fixed1_value_tenth by blast

lemma floor_numeral_quotient [simp]:
  "\<lfloor>numeral a / numeral b :: rat\<rfloor> = numeral a div numeral b"
  using floor_divide_of_int_eq [of "numeral a" "numeral b", where ?'a = rat] by simp

lemma fixed1_value_examples:
  "fixed1_value (89 / 4) = 223 / 10" "fixed1_value 50 = 50"
  by (simp_all add: fixed1_value_def toFixed1_tenths_def)

lemmas render_fixed =
  toFixed1_def toFixed1_tenths_def string_of_nat.simps digit_char_def Let_def

lemma foldl_plus: "foldl (\<lambda>a b. a + b) (a :: rat) xs = a + sum_list xs"
  by (induction xs arbitrary: a) simp_all

lemma upt_append_plus: "[i..<i + a] @ [i + a..<i + a + b] = [i..<i + (a + b)]"
  using upt_add_eq_append [of i "i + a" b] by (simp add: add.assoc)

section \<open>Dictionaries\<close>

lemma set_first_seen [simp]: "set (first_seen xs) = set xs"
  by (induction xs) auto

lemma distinct_first_seen [simp]: "distinct (first_seen xs)"
  by (induction xs) auto

lemma first_seen_snoc:
  "first_seen (xs @ [x]) = (if x \<in> set xs then first_seen xs else first_seen xs @ [x])"
  by (induction xs) auto

lemma first_seen_filter: "first_seen (filter P xs) = filter P (first_seen xs)"
proof (induction xs)
  case Nil
  show ?case by simp
next
  case (Cons x xs)
  show ?case
  proof (cases "P x")
    case True
    have "filter P (filter (\<lambda>y. y \<noteq> x) (first_seen xs)) =
        filter (\<lambda>y. y \<noteq> x) (filter P (first_seen xs))"
      by (simp add: conj_commute)
    then show ?thesis using True Cons by simp
  next
    case False
    have "filter P (filter (\<lambda>y. y \<noteq> x) (first_seen xs)) = filter P (first_seen xs)"
      unfolding filter_filter by (rule filter_cong) (use False in auto)
    then show ?thesis using False Cons by simp
  qed
qed

lemma map_of_graph:
  "map_of (map (\<lambda>s. (s, g s)) ids) k = (if k \<in> set ids then Some (g k) else None)"
  by (induction ids) auto

lemma map_entry_graph:
  "distinct ids \<Longrightarrow>
   AList.map_entry k f (map (\<lambda>s. (s, g s)) ids) =
   map (\<lambda>s. (s, if s = k then f (g s) else g s)) ids"
  by (induction ids) auto

lemma map_entry_snoc:
  "k \<notin> fst ` set xs \<Longrightarrow> AList.map_entry k f (xs @ [(k, v)]) = xs @ [(k, f v)]"
  by (induction xs) auto

lemma set_map_filter: "set (List.map_filter f xs) = {y. \<exists>x \<in> set xs. f x = Some y}"
  by (induction xs) (auto simp: map_filter_simps split: option.splits)

lemma map_filter_snoc:
  "List.map_filter f (xs @ [x]) =
     List.map_filter f xs @ (case f x of None \<Rightarrow> [] | Some y \<Rightarrow> [y])"
  by (simp add: map_filter_def split: option.splits)

lemma map_filter_Some: "List.map_filter (\<lambda>x. Some (f x)) xs = map f xs"
  by (induction xs) (simp_all add: map_filter_simps)

lemma rows_with_snoc:
  "rows_with key (xs @ [x]) k = rows_with key xs k @ (if key x = Some k then [x] else [])"
  by (simp add: rows_with_def)

lemma rows_with_empty_iff: "rows_with key xs k = [] \<longleftrightarrow> k \<notin> set (List.map_filter key xs)"
  by (auto simp: rows_with_def filter_empty_conv set_map_filter)

lemma group_value_snoc:
  "rows \<noteq> [] \<Longrightarrow> group_value init upd (rows @ [x]) = upd x (group_value init upd rows)"
  by (simp add: group_value_def)

lemma group_value_single: "group_value init upd [x] = upd x (init x)"
  by (simp add: group_value_def)

lemma group_graph:
  "foldl (group_step key init upd) [] xs =
     map (\<lambda>k. (k, group_value init upd (rows_with key xs k)))
       (first_seen (List.map_filter key xs))"
proof (induction xs rule: rev_induct)
  case Nil
  show ?case by (simp add: map_filter_simps)
next
  case (snoc x xs)
  define ks where "ks = first_seen (List.map_filter key xs)"
  define g where "g = (\<lambda>k. group_value init upd (rows_with key xs k))"
  define obj where "obj = map (\<lambda>k. (k, g k)) ks"
  have sks: "set ks = set (List.map_filter key xs)" by (simp add: ks_def)
  have dks: "distinct ks" by (simp add: ks_def)
  have step: "foldl (group_step key init upd) [] (xs @ [x]) = group_step key init upd obj x"
    using snoc by (simp add: ks_def obj_def g_def)
  show ?case
  proof (cases "key x")
    case None
    then have "group_step key init upd obj x = obj"
      by (simp add: group_step_def)
    moreover have "rows_with key (xs @ [x]) k = rows_with key xs k" for k
      using None by (simp add: rows_with_snoc)
    moreover have "List.map_filter key (xs @ [x]) = List.map_filter key xs"
      using None by (simp add: map_filter_snoc)
    ultimately show ?thesis using step by (simp add: obj_def ks_def g_def)
  next
    case (Some k)
    have mf: "List.map_filter key (xs @ [x]) = List.map_filter key xs @ [k]"
      using Some by (simp add: map_filter_snoc)
    have other: "rows_with key (xs @ [x]) j = rows_with key xs j" if "j \<noteq> k" for j
      using Some that by (auto simp: rows_with_snoc)
    have this_k: "rows_with key (xs @ [x]) k = rows_with key xs k @ [x]"
      using Some by (simp add: rows_with_snoc)
    show ?thesis
    proof (cases "k \<in> set ks")
      case True
      then have ne: "rows_with key xs k \<noteq> []"
        using sks by (simp add: rows_with_empty_iff)
      have "map_of obj k = Some (g k)"
        using True by (simp add: obj_def map_of_graph)
      then have "group_step key init upd obj x = AList.map_entry k (upd x) obj"
        using Some by (simp add: group_step_def)
      also have "\<dots> = map (\<lambda>j. (j, if j = k then upd x (g j) else g j)) ks"
        unfolding obj_def using dks by (rule map_entry_graph)
      also have "\<dots> = map (\<lambda>j. (j, group_value init upd (rows_with key (xs @ [x]) j))) ks"
        by (rule map_cong) (auto simp: g_def other this_k group_value_snoc ne)
      also have "ks = first_seen (List.map_filter key (xs @ [x]))"
        using True sks by (simp add: mf first_seen_snoc ks_def [symmetric])
      finally show ?thesis using step by simp
    next
      case False
      then have e: "rows_with key xs k = []"
        using sks by (simp add: rows_with_empty_iff)
      have nk: "k \<notin> fst ` set obj"
        using False by (auto simp: image_iff obj_def)
      have "map_of obj k = None"
        using False by (simp add: obj_def map_of_graph)
      then have "group_step key init upd obj x =
          AList.map_entry k (upd x) (obj @ [(k, init x)])"
        using Some by (simp add: group_step_def)
      also have "\<dots> = obj @ [(k, upd x (init x))]"
        using nk by (simp add: map_entry_snoc)
      also have "\<dots> =
          map (\<lambda>j. (j, group_value init upd (rows_with key (xs @ [x]) j))) (ks @ [k])"
      proof -
        have "rows_with key (xs @ [x]) j = rows_with key xs j" if "j \<in> set ks" for j
          using that False by (intro other) auto
        then have "map (\<lambda>j. (j, g j)) ks =
            map (\<lambda>j. (j, group_value init upd (rows_with key (xs @ [x]) j))) ks"
          by (simp add: g_def)
        then show ?thesis
          by (simp add: obj_def this_k e group_value_single)
      qed
      also have "ks @ [k] = first_seen (List.map_filter key (xs @ [x]))"
        using False sks by (simp add: mf first_seen_snoc ks_def [symmetric])
      finally show ?thesis using step by simp
    qed
  qed
qed

lemma foldl_cong_fun: "(\<And>a x. f a x = g a x) \<Longrightarrow> foldl f a xs = foldl g a xs"
  by (induction xs arbitrary: a) simp_all

subsection \<open>The order of the keys\<close>

lemma insort_key_map:
  "insort_key f (g x) (map g xs) = map g (insort_key (\<lambda>y. f (g y)) x xs)"
  by (induction xs) simp_all

lemma sort_key_map: "sort_key f (map g xs) = map g (sort_key (\<lambda>y. f (g y)) xs)"
  by (induction xs) (simp_all add: insort_key_map)

lemma insort_key_cong:
  "(\<And>y. y \<in> set (x # xs) \<Longrightarrow> f y = g y) \<Longrightarrow> insort_key f x xs = insort_key g x xs"
  by (induction xs) auto

lemma sort_key_cong:
  "(\<And>y. y \<in> set xs \<Longrightarrow> f y = g y) \<Longrightarrow> sort_key f xs = sort_key g xs"
proof (induction xs)
  case Nil
  show ?case by simp
next
  case (Cons x xs)
  then have "sort_key f xs = sort_key g xs" by simp
  moreover have "insort_key f x (sort_key g xs) = insort_key g x (sort_key g xs)"
    by (rule insort_key_cong) (use Cons.prems in auto)
  ultimately show ?case by simp
qed

lemma own_entries_graph:
  "own_entries idx (map (\<lambda>s. (s, g s)) ks) = map (\<lambda>s. (s, g s)) (key_order idx ks)"
proof -
  have r: "(\<lambda>s. index_rank idx (s, g s)) = key_rank idx"
    by (rule ext) (simp add: index_rank_def key_rank_def)
  show ?thesis
    by (simp add: own_entries_def key_order_def filter_map sort_key_map r comp_def)
qed

lemma set_key_order [simp]: "set (key_order idx ks) = set ks"
  by (auto simp: key_order_def)

lemma distinct_key_order [simp]: "distinct ks \<Longrightarrow> distinct (key_order idx ks)"
  by (auto simp: key_order_def)

lemma length_key_order [simp]: "length (key_order idx ks) = length ks"
proof -
  have "length (filter (\<lambda>k. idx k \<noteq> None) ks) + length (filter (\<lambda>k. idx k = None) ks) = length ks"
    using sum_length_filter_compl [of "\<lambda>k. idx k \<noteq> None" ks] by simp
  then show ?thesis by (simp add: key_order_def)
qed

lemma key_order_filter: "key_order idx (filter P ks) = filter P (key_order idx ks)"
proof -
  have "filter (\<lambda>k. idx k \<noteq> None) (filter P ks) = filter P (filter (\<lambda>k. idx k \<noteq> None) ks)"
    "filter (\<lambda>k. idx k = None) (filter P ks) = filter P (filter (\<lambda>k. idx k = None) ks)"
    by (simp_all add: conj_commute)
  then show ?thesis
    by (simp only: key_order_def filter_append filter_sort)
qed

section \<open>The department statistics\<close>

lemma foldl_tally_upd:
  "total (foldl (\<lambda>v x. tally_upd x v) d rows) = total d + sum_list (map score rows) \<and>
   count (foldl (\<lambda>v x. tally_upd x v) d rows) = count d + length rows"
  by (induction rows arbitrary: d) (simp_all add: tally_upd_def score_def)

lemma add_mark_group:
  "add_mark obj m =
     group_step (\<lambda>m. Some (studentId m)) (\<lambda>_. \<lparr>total = 0, count = 0\<rparr>) tally_upd obj m"
  by (simp add: add_mark_def group_step_def tally_upd_def [abs_def] Let_def
      cong: option.case_cong)

lemma rows_with_studentId: "rows_with (\<lambda>m. Some (studentId m)) ms s = records_of ms s"
  by (simp add: rows_with_def records_of_def)

lemma studentMarks_graph:
  "foldl add_mark [] ms = map (\<lambda>s. (s, tally_of ms s)) (first_seen (map studentId ms))"
proof -
  have "foldl add_mark [] ms =
      foldl (group_step (\<lambda>m. Some (studentId m)) (\<lambda>_. \<lparr>total = 0, count = 0\<rparr>) tally_upd)
        [] ms"
    by (rule foldl_cong_fun) (rule add_mark_group)
  moreover have "group_value (\<lambda>_. \<lparr>total = 0, count = 0\<rparr>) tally_upd rows =
      \<lparr>total = sum_list (map score rows), count = length rows\<rparr>" for rows
    by (simp add: group_value_def foldl_tally_upd)
  ultimately show ?thesis
    by (simp add: group_graph rows_with_studentId map_filter_Some tally_of_def)
qed

lemma foldl_tally_student:
  "foldl tally_student (a, p, r) es =
     (a + sum_list (map (\<lambda>e. total (snd e) / of_nat (count (snd e))) es),
      p + length (filter (\<lambda>e. total (snd e) / of_nat (count (snd e)) \<ge> PASS_THRESHOLD) es),
      r + length (filter (\<lambda>e. total (snd e) / of_nat (count (snd e)) < RISK_THRESHOLD) es))"
  by (induction es arbitrary: a p r) (simp_all add: tally_student_def Let_def)

lemma department_stats_nonempty:
  assumes "ms \<noteq> []"
  defines "S \<equiv> studentId ` set ms"
  shows "department_stats ms =
     \<lparr>average = Some (fixed1_value ((\<Sum>s\<in>S. student_mean ms s) / of_nat (card S))),
      passPercentage = Some (fixed1_value
         (of_nat (card {s \<in> S. student_mean ms s \<ge> 20}) / of_nat (card S) * 100)),
      atRiskCount = card {s \<in> S. student_mean ms s < 18},
      totalStudents = card S\<rparr>"
proof -
  define ks where "ks = key_order id_index (first_seen (map studentId ms))"
  have dks: "distinct ks" and sks: "set ks = S"
    by (simp_all add: ks_def S_def)
  have len: "length ks = card S"
    using dks sks distinct_card by fastforce
  have pos: "0 < card S"
    using assms by (simp add: S_def card_gt_0_iff)
  have ent: "own_entries id_index (foldl add_mark [] ms) = map (\<lambda>s. (s, tally_of ms s)) ks"
    by (simp add: studentMarks_graph own_entries_graph ks_def)
  have mean: "\<And>s. total (tally_of ms s) / of_nat (count (tally_of ms s)) = student_mean ms s"
    by (simp add: tally_of_def student_mean_def)
  have s1: "sum_list (map (student_mean ms) ks) = (\<Sum>s\<in>S. student_mean ms s)"
    using dks sks by (simp add: sum_list_distinct_conv_sum_set)
  have c1: "length (filter (\<lambda>s. student_mean ms s \<ge> 20) ks) = card {s \<in> S. student_mean ms s \<ge> 20}"
    using dks sks by (simp add: distinct_length_filter Int_def conj_commute)
  have c2: "length (filter (\<lambda>s. student_mean ms s < 18) ks) = card {s \<in> S. student_mean ms s < 18}"
    using dks sks by (simp add: distinct_length_filter Int_def conj_commute)
  have fold: "foldl tally_student (0, 0, 0) (map (\<lambda>s. (s, tally_of ms s)) ks) =
      ((\<Sum>s\<in>S. student_mean ms s), card {s \<in> S. student_mean ms s \<ge> 20},
       card {s \<in> S. student_mean ms s < 18})"
    by (simp add: foldl_tally_student filter_map comp_def mean s1 c1 c2
        PASS_THRESHOLD_def RISK_THRESHOLD_def)
  have kne: "ks \<noteq> []"
    using len pos by auto
  show ?thesis
    using assms(1) pos kne
    by (simp add: department_stats_def Let_def ent fold len parseFloat_toFixed1)
qed

section \<open>The overview\<close>

subsection \<open>Grades\<close>

lemma foldl_grade_mark:
  fixes g :: grade_counts
  shows "foldl grade_mark g ms =
     \<lparr>gradeA = gradeA g + length (filter (\<lambda>m. 80 \<le> percent m) ms),
      gradeB = gradeB g + length (filter (\<lambda>m. 60 \<le> percent m \<and> percent m < 80) ms),
      gradeC = gradeC g + length (filter (\<lambda>m. 40 \<le> percent m \<and> percent m < 60) ms),
      gradeD = gradeD g + length (filter (\<lambda>m. 20 \<le> percent m \<and> percent m < 40) ms),
      gradeF = gradeF g + length (filter (\<lambda>m. percent m < 20) ms)\<rparr>"
  by (induction ms arbitrary: g) (auto simp: grade_mark_def)

lemma band_partition:
  "length (filter (\<lambda>m. 80 \<le> percent m) ms) +
   length (filter (\<lambda>m. 60 \<le> percent m \<and> percent m < 80) ms) +
   length (filter (\<lambda>m. 40 \<le> percent m \<and> percent m < 60) ms) +
   length (filter (\<lambda>m. 20 \<le> percent m \<and> percent m < 40) ms) +
   length (filter (\<lambda>m. percent m < 20) ms) = length ms"
  by (induction ms) auto

subsection \<open>The loop over the students\<close>

lemma add_student_mark_group:
  "add_student_mark obj m = group_step (\<lambda>m. Some (studentId m)) student_init student_upd obj m"
  by (simp add: add_student_mark_def group_step_def student_init_def
      student_upd_def [abs_def] Let_def cong: option.case_cong)

lemma studentMarksMap_graph:
  "foldl add_student_mark [] ms =
     map (\<lambda>s. (s, entry_of ms s)) (first_seen (map studentId ms))"
proof -
  have "foldl add_student_mark [] ms =
      foldl (group_step (\<lambda>m. Some (studentId m)) student_init student_upd) [] ms"
    by (rule foldl_cong_fun) (rule add_student_mark_group)
  then show ?thesis
    by (simp add: group_graph rows_with_studentId map_filter_Some entry_of_def)
qed

lemma foldl_student_upd:
  "entry_student (foldl (\<lambda>v x. student_upd x v) e rows) = entry_student e \<and>
   scores (foldl (\<lambda>v x. student_upd x v) e rows) = scores e @ map score rows"
  by (induction rows arbitrary: e) (simp_all add: student_upd_def score_def)

lemma records_of_nonempty: "s \<in> studentId ` set ms \<Longrightarrow> records_of ms s \<noteq> []"
  by (auto simp: records_of_def filter_empty_conv)

lemma entry_of_facts:
  assumes "s \<in> studentId ` set ms"
  shows "entry_avg (entry_of ms s) = student_mean ms s"
    and "entry_student (entry_of ms s) = joined_student ms s"
proof -
  obtain m rest where r: "records_of ms s = m # rest"
    using records_of_nonempty [OF assms] by (cases "records_of ms s") auto
  show "entry_avg (entry_of ms s) = student_mean ms s"
    by (simp add: entry_avg_def entry_of_def group_value_def foldl_student_upd
        student_init_def foldl_plus student_mean_def)
  have "entry_student (entry_of ms s) = entry_student (student_init (hd (records_of ms s)))"
    unfolding entry_of_def group_value_def by (simp only: foldl_student_upd)
  then show "entry_student (entry_of ms s) = joined_student ms s"
    by (simp add: student_init_def joined_student_def r)
qed

lemma student_keys_key_order:
  "student_keys ms = key_order id_index (first_seen (map studentId ms))"
proof -
  have i: "(id_index k \<noteq> None) = (k < 4294967295)" "(id_index k = None) = (\<not> k < 4294967295)"
    for k
    by (simp_all add: id_index_def)
  have "sort_key (key_rank id_index) (filter (\<lambda>s. s < 4294967295) xs) =
      sort (filter (\<lambda>s. s < 4294967295) xs)" for xs
    by (rule sort_key_cong) (simp add: key_rank_def id_index_def)
  then show ?thesis
    by (simp add: student_keys_def key_order_def i Let_def)
qed

lemma student_entries:
  "map snd (own_entries id_index (foldl add_student_mark [] ms)) =
     map (entry_of ms) (student_keys ms)"
  by (simp add: studentMarksMap_graph own_entries_graph student_keys_key_order comp_def)

lemma set_student_keys [simp]: "set (student_keys ms) = studentId ` set ms"
  by (simp add: student_keys_key_order)

lemma distinct_student_keys [simp]: "distinct (student_keys ms)"
  by (simp add: student_keys_key_order)

lemma check_student_entry:
  assumes "s \<in> studentId ` set ms"
  shows "check_student today (c, al, i) (entry_of ms s) =
     (if at_risk ms s
      then (if length al < 5 then (c + 1, al @ [warning_about today ms i s], i + 1)
            else (c + 1, al, i))
      else (c, al, i))"
  by (auto simp: check_student_def entry_of_facts [OF assms] at_risk_def warning_about_def
      student_warning_def Let_def split: option.splits)

lemma foldl_check_student:
  assumes "set ks \<subseteq> studentId ` set ms"
  shows "foldl (check_student today) (c, al, i) (map (entry_of ms) ks) =
     (c + length (filter (at_risk ms) ks),
      al @ map (\<lambda>(j, s). warning_about today ms j s)
             (enumerate i (take (5 - length al) (filter (at_risk ms) ks))),
      i + min (5 - length al) (length (filter (at_risk ms) ks)))"
  using assms
proof (induction ks arbitrary: c al i)
  case Nil
  show ?case by simp
next
  case (Cons k ks)
  then have k: "k \<in> studentId ` set ms" and ks: "set ks \<subseteq> studentId ` set ms"
    by auto
  show ?case
  proof (cases "at_risk ms k")
    case False
    then show ?thesis
      using Cons.IH [OF ks] by (simp add: check_student_entry [OF k])
  next
    case True
    show ?thesis
    proof (cases "length al < 5")
      case lt: True
      then obtain n where n: "5 - length al = Suc n" "5 - Suc (length al) = n"
        by (cases "5 - length al") auto
      show ?thesis
        using True lt Cons.IH [OF ks] n
        by (simp add: check_student_entry [OF k])
    next
      case ge: False
      then have z: "5 - length al = 0" by simp
      show ?thesis
        using True ge Cons.IH [OF ks] z
        by (simp add: check_student_entry [OF k])
    qed
  qed
qed

lemma student_stage_spec:
  "student_stage today ms =
     (length (at_risk_students ms), student_warnings today ms,
      length (student_warnings today ms) + 1)"
proof -
  have "student_stage today ms =
      foldl (check_student today) (0, [], 1) (map (entry_of ms) (student_keys ms))"
    by (simp add: student_stage_def student_entries)
  also have "\<dots> = (length (at_risk_students ms), student_warnings today ms,
      1 + min 5 (length (at_risk_students ms)))"
    by (subst foldl_check_student) (simp_all add: at_risk_students_def student_warnings_def)
  finally show ?thesis
    by (simp add: student_warnings_def min.commute)
qed

lemma length_student_warnings:
  "length (student_warnings today ms) = min 5 (length (at_risk_students ms))"
  by (simp add: student_warnings_def min.commute)

lemma length_at_risk_students:
  "length (at_risk_students ms) = card {s \<in> studentId ` set ms. at_risk ms s}"
proof -
  have "length (filter (at_risk ms) (student_keys ms)) =
      card ({s. at_risk ms s} \<inter> set (student_keys ms))"
    by (rule distinct_length_filter) simp
  also have "{s. at_risk ms s} \<inter> set (student_keys ms) = {s \<in> studentId ` set ms. at_risk ms s}"
    by auto
  finally show ?thesis by (simp add: at_risk_students_def)
qed

lemma student_warnings_types:
  "a \<in> set (student_warnings today ms) \<Longrightarrow> alert_type a = ''warning''"
  by (auto simp: student_warnings_def warning_about_def)

lemma student_warnings_ids:
  "map alert_id (student_warnings today ms) = [1..<length (student_warnings today ms) + 1]"
proof -
  have "map alert_id (student_warnings today ms) =
      map fst (enumerate 1 (take 5 (at_risk_students ms)))"
    by (simp add: student_warnings_def warning_about_def case_prod_unfold comp_def)
  then show ?thesis
    by (simp add: student_warnings_def)
qed

lemma student_warnings_nth:
  assumes "j < length (student_warnings today ms)"
  shows "\<exists>st. joined_student ms (at_risk_students ms ! j) = Some st \<and>
     student_mean ms (at_risk_students ms ! j) < 18 \<and>
     student_warnings today ms ! j =
       \<lparr>alert_id = j + 1, alert_type = ''warning'',
        message = student_name st @ '' has low average ('' @
                  toFixed1 (student_mean ms (at_risk_students ms ! j)) @ ''/50)'',
        date = today\<rparr>"
proof -
  have j5: "j < 5" and jl: "j < length (at_risk_students ms)"
    using assms by (simp_all add: length_student_warnings)
  have "at_risk_students ms ! j \<in> set (at_risk_students ms)"
    using jl by simp
  then have r: "at_risk ms (at_risk_students ms ! j)"
    by (simp add: at_risk_students_def)
  then obtain st where st: "joined_student ms (at_risk_students ms ! j) = Some st"
    by (auto simp: at_risk_def)
  have "student_warnings today ms ! j = warning_about today ms (j + 1) (at_risk_students ms ! j)"
    using j5 jl by (simp add: student_warnings_def nth_enumerate_eq)
  then show ?thesis
    using r st by (simp add: warning_about_def at_risk_def)
qed

lemma sorted_student_keys:
  assumes "\<And>m. m \<in> set ms \<Longrightarrow> studentId m < 4294967295"
  shows "sorted_wrt (<) (student_keys ms)"
proof -
  have "filter (\<lambda>s. \<not> s < 4294967295) (first_seen (map studentId ms)) = []"
    using assms by (auto simp: filter_empty_conv)
  then have "student_keys ms = sort (filter (\<lambda>s. s < 4294967295) (first_seen (map studentId ms)))"
    by (simp add: student_keys_def Let_def)
  then show ?thesis
    by (simp add: strict_sorted_iff)
qed

subsection \<open>The loop over the subjects\<close>

lemma add_subject_mark_group:
  assumes "fst ` set obj \<inter> set object_prototype_names = {}"
  shows "add_subject_mark obj m =
     group_step subject_key (\<lambda>_. \<lparr>total = 0, count = 0\<rparr>) tally_upd obj m"
proof (cases "subject m")
  case None
  then show ?thesis
    by (simp add: add_subject_mark_def group_step_def subject_key_def)
next
  case (Some s)
  show ?thesis
  proof (cases "subject_name s \<in> set object_prototype_names")
    case True
    then have "subject_name s \<notin> fst ` set obj" using assms by auto
    then have "map_of obj (subject_name s) = None"
      by (simp add: map_of_eq_None_iff)
    then show ?thesis
      using Some True by (simp add: add_subject_mark_def group_step_def subject_key_def)
  next
    case False
    then show ?thesis
      using Some
      by (simp add: add_subject_mark_def group_step_def subject_key_def Let_def
          tally_upd_def [abs_def] split: option.splits)
  qed
qed

lemma subject_key_not_inherited: "subject_key m = Some n \<Longrightarrow> n \<notin> set object_prototype_names"
  by (auto simp: subject_key_def split: option.splits if_splits)

lemma subjectPerf_group:
  "foldl add_subject_mark [] ms =
     foldl (group_step subject_key (\<lambda>_. \<lparr>total = 0, count = 0\<rparr>) tally_upd) [] ms"
proof (induction ms rule: rev_induct)
  case Nil
  show ?case by simp
next
  case (snoc m ms)
  have "fst ` set (foldl (group_step subject_key (\<lambda>_. \<lparr>total = 0, count = 0\<rparr>) tally_upd) [] ms)
      \<inter> set object_prototype_names = {}"
    by (auto simp: group_graph set_map_filter comp_def dest: subject_key_not_inherited)
  then show ?case
    using snoc by (simp add: add_subject_mark_group)
qed

lemma subjectPerf_graph:
  "foldl add_subject_mark [] ms =
     map (\<lambda>n. (n, subject_tally ms n)) (first_seen (List.map_filter subject_key ms))"
  by (simp add: subjectPerf_group group_graph subject_tally_def subject_rows_def rows_with_def)

lemma subject_tally_mean:
  "total (subject_tally ms n) / of_nat (count (subject_tally ms n)) = subject_mean ms n"
  by (simp add: subject_tally_def group_value_def foldl_tally_upd subject_mean_def)

lemma subject_entries:
  "own_entries array_index (foldl add_subject_mark [] ms) =
     map (\<lambda>n. (n, subject_tally ms n)) (subject_keys ms)"
  by (simp add: subjectPerf_graph own_entries_graph subject_keys_def)

lemma foldl_check_subject:
  "foldl (check_subject today) (al, i) (map (\<lambda>n. (n, subject_tally ms n)) ks) =
     (al @ map (\<lambda>(j, n). subject_warning today j n (subject_mean ms n))
             (enumerate i (filter (\<lambda>n. subject_mean ms n < 25) ks)),
      i + length (filter (\<lambda>n. subject_mean ms n < 25) ks))"
  by (induction ks arbitrary: al i)
    (simp_all add: check_subject_def subject_tally_mean Let_def)

lemma subject_stage_spec:
  "subject_stage today ms (al, i) =
     (al @ subject_warnings today ms i, i + length (low_subjects ms))"
  by (simp add: subject_stage_def subject_entries foldl_check_subject subject_warnings_def
      low_subjects_def)

lemma length_subject_warnings [simp]:
  "length (subject_warnings today ms i) = length (low_subjects ms)"
  by (simp add: subject_warnings_def)

lemma subject_warnings_types:
  "a \<in> set (subject_warnings today ms i) \<Longrightarrow> alert_type a = ''warning''"
  by (auto simp: subject_warnings_def subject_warning_def)

lemma subject_warnings_ids:
  "map alert_id (subject_warnings today ms i) = [i..<i + length (low_subjects ms)]"
proof -
  have "map alert_id (subject_warnings today ms i) = map fst (enumerate i (low_subjects ms))"
    by (simp add: subject_warnings_def subject_warning_def case_prod_unfold comp_def)
  then show ?thesis by simp
qed

lemma subject_warnings_nth:
  assumes "j < length (low_subjects ms)"
  shows "subject_warnings today ms i ! j =
     \<lparr>alert_id = i + j, alert_type = ''warning'',
      message = low_subjects ms ! j @ '' has low class average ('' @
                toFixed1 (subject_mean ms (low_subjects ms ! j)) @ ''/50)'',
      date = today\<rparr>"
  using assms by (simp add: subject_warnings_def nth_enumerate_eq subject_warning_def)

lemma low_subjects_set:
  "distinct (low_subjects ms) \<and>
   set (low_subjects ms) =
     {n. (\<exists>m \<in> set ms. subject_key m = Some n) \<and> subject_mean ms n < 25}"
  by (auto simp: low_subjects_def subject_keys_def set_map_filter)

lemma no_subject_keys:
  "(\<And>m. m \<in> set ms \<Longrightarrow> subject m = None) \<Longrightarrow> low_subjects ms = []"
proof -
  assume a: "\<And>m. m \<in> set ms \<Longrightarrow> subject m = None"
  have "List.map_filter subject_key ms = []"
    using a by (induction ms) (simp_all add: map_filter_simps subject_key_def)
  then show ?thesis
    by (simp add: low_subjects_def subject_keys_def key_order_def)
qed

subsection \<open>The alert list\<close>

lemma pending_alerts_ids:
  "map alert_id (pending_alerts today ms i) = [i..<i + length (pending_alerts today ms i)]"
  by (simp add: pending_alerts_def pending_alert_def)

lemma pending_alerts_types:
  "a \<in> set (pending_alerts today ms i) \<Longrightarrow> alert_type a = ''info''"
  by (auto simp: pending_alerts_def pending_alert_def split: if_splits)

lemma cohort_stage_spec:
  "check_cohort today (student_stage today ms) =
     (cohort_alerts today ms @ student_warnings today ms,
      length (cohort_alerts today ms) + length (student_warnings today ms) + 1)"
  by (simp add: student_stage_spec check_cohort_def cohort_alerts_def length_student_warnings)

lemma generate_alerts_spec:
  "generate_alerts today ms =
     (let alerts = core_alerts today ms @
                   pending_alerts today ms (length (core_alerts today ms) + 1)
      in if alerts = [] then [all_clear_alert today] else alerts)"
proof -
  define core where "core = core_alerts today ms"
  have st3: "subject_stage today ms (check_cohort today (student_stage today ms)) =
      (core, length core + 1)"
    by (simp add: cohort_stage_spec subject_stage_spec core_def core_alerts_def)
  have st4: "fst (check_pending today ms (core, length core + 1)) =
      core @ pending_alerts today ms (length core + 1)"
    by (simp add: check_pending_def pending_alerts_def pending_count_def Let_def)
  show ?thesis
    unfolding generate_alerts_def Let_def st3 st4 core_def [symmetric]
    by (cases "core = []") auto
qed

lemma alerts_after_students:
  "generate_alerts today ms =
     cohort_alerts today ms @ student_warnings today ms @
     (if cohort_alerts today ms = [] \<and> student_warnings today ms = [] \<and>
         low_subjects ms = [] \<and> pending_count ms = 0
      then [all_clear_alert today]
      else subject_warnings today ms
             (length (cohort_alerts today ms) + length (student_warnings today ms) + 1) @
           pending_alerts today ms (length (core_alerts today ms) + 1))"
proof -
  have "subject_warnings today ms i = [] \<longleftrightarrow> low_subjects ms = []" for i
    using length_subject_warnings [of today ms i] by (metis length_0_conv)
  moreover have "pending_alerts today ms i = [] \<longleftrightarrow> pending_count ms = 0" for i
    by (simp add: pending_alerts_def)
  ultimately show ?thesis
    by (simp add: generate_alerts_spec Let_def core_alerts_def)
qed

lemma alerts_with_cohort:
  assumes "5 < length (at_risk_students ms)"
  shows "generate_alerts today ms =
     critical_alert today 6 (length (at_risk_students ms)) #
     student_warnings today ms @ subject_warnings today ms 7 @
     pending_alerts today ms (7 + length (low_subjects ms))"
    and "length (student_warnings today ms) = 5"
proof -
  show l: "length (student_warnings today ms) = 5"
    using assms by (simp add: length_student_warnings)
  have c: "cohort_alerts today ms = [critical_alert today 6 (length (at_risk_students ms))]"
    using assms by (simp add: cohort_alerts_def)
  have core: "core_alerts today ms =
      critical_alert today 6 (length (at_risk_students ms)) #
      student_warnings today ms @ subject_warnings today ms 7"
    by (simp add: core_alerts_def c l)
  show "generate_alerts today ms =
     critical_alert today 6 (length (at_risk_students ms)) #
     student_warnings today ms @ subject_warnings today ms 7 @
     pending_alerts today ms (7 + length (low_subjects ms))"
    by (simp add: generate_alerts_spec Let_def core l)
qed

lemma critical_filter_core:
  "filter (\<lambda>a. alert_type a = ''critical'') (core_alerts today ms) = cohort_alerts today ms"
proof -
  have c: "filter (\<lambda>a. alert_type a = ''critical'') (cohort_alerts today ms) =
      cohort_alerts today ms"
    by (simp add: cohort_alerts_def critical_alert_def)
  have s: "filter (\<lambda>a. alert_type a = ''critical'') (student_warnings today ms) = []"
    by (auto simp: filter_empty_conv dest: student_warnings_types)
  have j: "filter (\<lambda>a. alert_type a = ''critical'') (subject_warnings today ms i) = []" for i
    by (auto simp: filter_empty_conv dest: subject_warnings_types)
  show ?thesis by (simp add: core_alerts_def c s j)
qed

lemma critical_filter_alerts:
  "filter (\<lambda>a. alert_type a = ''critical'') (generate_alerts today ms) = cohort_alerts today ms"
proof -
  have p: "filter (\<lambda>a. alert_type a = ''critical'') (pending_alerts today ms i) = []" for i
    by (auto simp: filter_empty_conv dest: pending_alerts_types)
  have e: "core_alerts today ms = [] \<Longrightarrow> cohort_alerts today ms = []"
    by (simp add: core_alerts_def)
  show ?thesis
    by (auto simp: generate_alerts_spec Let_def critical_filter_core p e all_clear_alert_def)
qed

lemma core_alerts_code:
  "core_alerts today ms = fst (subject_stage today ms (check_cohort today (student_stage today ms)))"
  by (simp add: cohort_stage_spec subject_stage_spec core_alerts_def)

lemma core_alerts_types: "a \<in> set (core_alerts today ms) \<Longrightarrow> alert_type a \<noteq> ''info''"
  by (auto simp: core_alerts_def cohort_alerts_def critical_alert_def
      dest: student_warnings_types subject_warnings_types split: if_splits)

lemma core_alerts_empty_iff:
  "core_alerts today ms = [] \<longleftrightarrow>
     {s \<in> studentId ` set ms. at_risk ms s} = {} \<and> low_subjects ms = []"
proof -
  have f: "finite {s \<in> studentId ` set ms. at_risk ms s}" by simp
  have "student_warnings today ms = [] \<longleftrightarrow> at_risk_students ms = []"
    using length_student_warnings [of today ms] by (metis length_0_conv min_0R min_def zero_neq_numeral)
  moreover have "at_risk_students ms = [] \<longleftrightarrow> {s \<in> studentId ` set ms. at_risk ms s} = {}"
    using length_at_risk_students [of ms] f by (metis card_0_eq length_0_conv)
  moreover have "subject_warnings today ms i = [] \<longleftrightarrow> low_subjects ms = []" for i
    using length_subject_warnings [of today ms i] by (metis length_0_conv)
  moreover have "at_risk_students ms = [] \<Longrightarrow> cohort_alerts today ms = []"
    by (simp add: cohort_alerts_def)
  ultimately show ?thesis
    by (auto simp: core_alerts_def)
qed

subsection \<open>Rows of a student without a joined student object\<close>

lemma records_of_without:
  "s' \<noteq> s \<Longrightarrow> records_of (filter (\<lambda>m. studentId m \<noteq> s) ms) s' = records_of ms s'"
  unfolding records_of_def filter_filter by (rule filter_cong) auto

lemma student_without:
  assumes "s' \<noteq> s"
  shows "student_mean (filter (\<lambda>m. studentId m \<noteq> s) ms) s' = student_mean ms s'"
    and "joined_student (filter (\<lambda>m. studentId m \<noteq> s) ms) s' = joined_student ms s'"
    and "at_risk (filter (\<lambda>m. studentId m \<noteq> s) ms) s' = at_risk ms s'"
  by (simp_all add: student_mean_def joined_student_def at_risk_def records_of_without [OF assms])

lemma student_keys_without:
  "student_keys (filter (\<lambda>m. studentId m \<noteq> s) ms) = filter (\<lambda>k. k \<noteq> s) (student_keys ms)"
proof -
  have "map studentId (filter (\<lambda>m. studentId m \<noteq> s) ms) =
      filter (\<lambda>k. k \<noteq> s) (map studentId ms)"
    by (simp add: filter_map comp_def)
  then show ?thesis
    by (simp add: student_keys_key_order first_seen_filter key_order_filter)
qed

lemma unjoined_not_at_risk:
  assumes "\<forall>m \<in> set ms. studentId m = s \<longrightarrow> student m = None"
  shows "\<not> at_risk ms s"
proof -
  have "joined_student ms s = None"
  proof (cases "records_of ms s")
    case Nil
    then show ?thesis by (simp add: joined_student_def)
  next
    case (Cons m rest)
    then have "m \<in> set (records_of ms s)" by simp
    then have "m \<in> set ms" "studentId m = s" by (simp_all add: records_of_def)
    then have "student m = None" using assms by simp
    then show ?thesis by (simp add: joined_student_def Cons)
  qed
  then show ?thesis by (simp add: at_risk_def)
qed

lemma at_risk_students_without:
  assumes "\<not> at_risk ms s"
  shows "at_risk_students (filter (\<lambda>m. studentId m \<noteq> s) ms) = at_risk_students ms"
proof -
  have "at_risk_students (filter (\<lambda>m. studentId m \<noteq> s) ms) =
      filter (\<lambda>k. k \<noteq> s \<and> at_risk (filter (\<lambda>m. studentId m \<noteq> s) ms) k) (student_keys ms)"
    by (simp add: at_risk_students_def student_keys_without conj_commute)
  also have "\<dots> = filter (at_risk ms) (student_keys ms)"
  proof (rule filter_cong [OF refl])
    fix k
    show "(k \<noteq> s \<and> at_risk (filter (\<lambda>m. studentId m \<noteq> s) ms) k) = at_risk ms k"
      using assms by (cases "k = s") (simp_all add: student_without)
  qed
  finally show ?thesis by (simp add: at_risk_students_def)
qed

lemma student_warnings_without:
  assumes "\<not> at_risk ms s"
  shows "student_warnings today (filter (\<lambda>m. studentId m \<noteq> s) ms) = student_warnings today ms"
proof -
  have "s \<notin> set (at_risk_students ms)"
    using assms by (simp add: at_risk_students_def)
  have ne: "snd p \<noteq> s" if "p \<in> set (enumerate 1 (take 5 (at_risk_students ms)))" for p
  proof -
    from that have "snd p \<in> set (take 5 (at_risk_students ms))"
      unfolding enumerate_eq_zip by (rule set_zip_rightD [of "fst p" "snd p", simplified])
    then have "snd p \<in> set (at_risk_students ms)"
      by (rule in_set_takeD)
    then show ?thesis
      using \<open>s \<notin> set (at_risk_students ms)\<close> by auto
  qed
  have "map (\<lambda>(i, k). warning_about today (filter (\<lambda>m. studentId m \<noteq> s) ms) i k)
      (enumerate 1 (take 5 (at_risk_students ms))) =
      map (\<lambda>(i, k). warning_about today ms i k) (enumerate 1 (take 5 (at_risk_students ms)))"
    by (rule map_cong) (use ne in \<open>auto simp: warning_about_def student_without\<close>)
  then show ?thesis
    by (simp add: student_warnings_def at_risk_students_without [OF assms])
qed

subsection \<open>The example inputs\<close>

lemmas example_rows =
  overview_row_def at_risk_students_def student_keys_def Let_def
  at_risk_def student_mean_def joined_student_def records_of_def score_def num_or_def

lemmas example_warnings =
  student_warnings_def warning_about_def enumerate_eq_zip upt_rec
  overview_row_def student_mean_def joined_student_def records_of_def score_def num_or_def

lemmas example_subjects =
  low_subjects_def subject_keys_def key_order_def key_rank_def array_index_def
  subject_key_def object_prototype_names_def subject_mean_def subject_rows_def
  map_filter_simps is_digit_def overview_row_def score_def num_or_def

lemmas run_overview =
  generate_alerts_def student_stage_def subject_stage_def add_student_mark_def
  add_subject_mark_def own_entries_def index_rank_def id_index_def array_index_def
  check_student_def entry_avg_def check_cohort_def check_subject_def check_pending_def
  set_add_def overview_row_def num_or_def object_prototype_names_def is_digit_def

lemma six_unjoined_at_risk: "at_risk_students six_unjoined = []"
  by (simp add: six_unjoined_def example_rows)

lemma seven_at_risk_students: "at_risk_students seven_at_risk = [1, 2, 3, 5, 7, 8, 9]"
  by (simp add: seven_at_risk_def example_rows)

lemma six_unjoined_alerts: "generate_alerts ''1/1/2026'' six_unjoined = [all_clear_alert ''1/1/2026'']"
proof -
  have "low_subjects six_unjoined = []"
    by (rule no_subject_keys) (auto simp: six_unjoined_def overview_row_def)
  moreover have "pending_count six_unjoined = 0"
    by (simp add: pending_count_def six_unjoined_def overview_row_def)
  ultimately show ?thesis
    by (simp add: generate_alerts_spec core_alerts_def cohort_alerts_def student_warnings_def
        subject_warnings_def pending_alerts_def six_unjoined_at_risk)
qed

lemma two_students_at_risk: "at_risk_students two_students = [1, 2]"
  by (simp add: two_students_def example_rows)

lemma two_students_warnings:
  "student_warnings ''1/1/2026'' two_students =
     [\<lparr>alert_id = 1, alert_type = ''warning'', message = ''Asha has low average (12.0/50)'',
       date = ''1/1/2026''\<rparr>,
      \<lparr>alert_id = 2, alert_type = ''warning'', message = ''Bala has low average (10.0/50)'',
       date = ''1/1/2026''\<rparr>]"
  unfolding student_warnings_def two_students_at_risk
  by (simp add: two_students_def example_warnings render_fixed)

lemma six_at_risk_students: "at_risk_students six_at_risk = [3, 5, 8, 14, 21, 27]"
  by (simp add: six_at_risk_def example_rows)

lemma three_pending_low_subjects: "low_subjects three_pending = []"
  by (simp add: three_pending_def example_subjects)

section \<open>The claims\<close>

subsection \<open>C1: the grade distribution\<close>


subsection \<open>C2: the department statistics\<close>



subsection \<open>C3: the critical alert\<close>




subsection \<open>C4: the warnings on students\<close>




subsection \<open>C5: the warnings on subjects\<close>

text \<open>
  Claim C5 promises a warning for every subject whose mean is below 25. For a subject
  named like a member of \<open>Object.prototype\<close> the handler emits none: one row with marks 20
  for the subject \<open>constructor\<close> gives the all-clear alert alone, where the same row for
  the subject \<open>Maths\<close> gives the warning.
\<close>

theorem subject_named_constructor:
  "generate_alerts ''1/1/2026''
     [overview_row 1 20 ''APPROVED'' (Some ''constructor'') (Some ''Asha'')] =
     [\<lparr>alert_id = 1, alert_type = ''info'',
       message = ''All department metrics are within acceptable range'',
       date = ''1/1/2026''\<rparr>] \<and>
   generate_alerts ''1/1/2026''
     [overview_row 1 20 ''APPROVED'' (Some ''Maths'') (Some ''Asha'')] =
     [\<lparr>alert_id = 1, alert_type = ''warning'',
       message = ''Maths has low class average (20.0/50)'', date = ''1/1/2026''\<rparr>]"
  by (simp add: run_overview Let_def all_clear_alert_def subject_warning_def render_fixed)

text \<open>
  For the other names the claim holds. The loop over the subjects appends one warning for
  each key of \<open>subjectPerf\<close> whose mean is below 25, with no cap; the keys are the names
  of the subjects of the rows, the members of \<open>Object.prototype\<close> apart; a row without a
  subject is in no group, and a name without a row is no key, so no mean divides by 0.
  The warning names the subject and the mean written by \<open>toFixed(1)\<close>.
\<close>

theorem subject_warnings_complete:
  "fst (subject_stage today ms (al, i)) = al @ subject_warnings today ms i \<and>
   distinct (low_subjects ms) \<and>
   set (low_subjects ms) =
     {n. (\<exists>m \<in> set ms. subject_key m = Some n) \<and> subject_mean ms n < 25} \<and>
   length (subject_warnings today ms i) = length (low_subjects ms) \<and>
   (\<forall>j < length (low_subjects ms).
      subject_warnings today ms i ! j =
        \<lparr>alert_id = i + j, alert_type = ''warning'',
         message = low_subjects ms ! j @ '' has low class average ('' @
                   toFixed1 (subject_mean ms (low_subjects ms ! j)) @ ''/50)'',
         date = today\<rparr>) \<and>
   (subject_key m = Some n \<longleftrightarrow>
      (\<exists>sb. subject m = Some sb \<and> subject_name sb = n) \<and> n \<notin> set object_prototype_names) \<and>
   subject_mean ms n =
     sum_list (map score (filter (\<lambda>m. subject_key m = Some n) ms)) /
     of_nat (length (filter (\<lambda>m. subject_key m = Some n) ms))"
proof -
  have k: "subject_key m = Some n \<longleftrightarrow>
      (\<exists>sb. subject m = Some sb \<and> subject_name sb = n) \<and> n \<notin> set object_prototype_names"
    by (auto simp: subject_key_def split: option.splits)
  show ?thesis
    using low_subjects_set [of ms] subject_warnings_nth [of _ ms today i] k
    by (simp add: subject_stage_spec subject_mean_def subject_rows_def)
qed

theorem subject_warnings_complete_witness:
  "low_subjects one_subject = [''Maths''] \<and>
   fst (subject_stage ''1/1/2026'' one_subject ([], 1)) =
     [\<lparr>alert_id = 1, alert_type = ''warning'',
       message = ''Maths has low class average (10.0/50)'', date = ''1/1/2026''\<rparr>] \<and>
   generate_alerts ''1/1/2026'' one_subject =
     [\<lparr>alert_id = 1, alert_type = ''warning'',
       message = ''Maths has low class average (10.0/50)'', date = ''1/1/2026''\<rparr>]"
proof -
  have l: "low_subjects one_subject = [''Maths'']"
    by (simp add: one_subject_def example_subjects)
  have m: "subject_mean one_subject ''Maths'' = 10"
    by (simp add: one_subject_def example_subjects)
  have w: "subject_warnings ''1/1/2026'' one_subject 1 =
     [\<lparr>alert_id = 1, alert_type = ''warning'',
       message = ''Maths has low class average (10.0/50)'', date = ''1/1/2026''\<rparr>]"
    by (simp add: subject_warnings_def l m subject_warning_def render_fixed)
  have s: "fst (subject_stage ''1/1/2026'' one_subject ([], 1)) =
      [] @ subject_warnings ''1/1/2026'' one_subject 1"
    using subject_warnings_complete [of "''1/1/2026''" one_subject "[]" 1] by blast
  have r: "at_risk_students one_subject = []"
    by (simp add: one_subject_def example_rows)
  have p: "pending_count one_subject = 0"
    by (simp add: pending_count_def one_subject_def overview_row_def)
  have "generate_alerts ''1/1/2026'' one_subject = subject_warnings ''1/1/2026'' one_subject 1"
    using l w by (simp add: generate_alerts_spec core_alerts_def cohort_alerts_def
        student_warnings_def r pending_alerts_def p Let_def)
  then show ?thesis
    using l s w by simp
qed

subsection \<open>C6: the pending alert and the all-clear alert\<close>

text \<open>
  Claim C6. The overview emits one informational alert that states the number of rows
  with status \<open>PENDING\<close> exactly when that number is positive, after the alerts on students
  and subjects. It emits the all-clear alert, with id 1, exactly when no other alert was
  emitted: no student at risk, no subject below 25 and no pending row. Pending rows with
  nothing else to report give the pending alert alone.
\<close>

theorem pending_and_all_clear:
  "generate_alerts today ms =
     (if 0 < pending_count ms
      then core_alerts today ms @
           [\<lparr>alert_id = length (core_alerts today ms) + 1, alert_type = ''info'',
             message = string_of_nat (pending_count ms) @ '' mark entries are still pending review'',
             date = today\<rparr>]
      else if core_alerts today ms = []
      then [\<lparr>alert_id = 1, alert_type = ''info'',
             message = ''All department metrics are within acceptable range'',
             date = today\<rparr>]
      else core_alerts today ms) \<and>
   pending_count ms = length (filter (\<lambda>m. status m = ''PENDING'') ms) \<and>
   core_alerts today ms =
     fst (subject_stage today ms (check_cohort today (student_stage today ms))) \<and>
   (\<forall>a \<in> set (core_alerts today ms). alert_type a = ''warning'' \<or> alert_type a = ''critical'') \<and>
   (core_alerts today ms = [] \<longleftrightarrow>
      {s \<in> studentId ` set ms. at_risk ms s} = {} \<and> low_subjects ms = []) \<and>
   filter (\<lambda>a. alert_type a = ''info'') (generate_alerts today ms) =
     (if 0 < pending_count ms
      then [\<lparr>alert_id = length (core_alerts today ms) + 1, alert_type = ''info'',
             message = string_of_nat (pending_count ms) @ '' mark entries are still pending review'',
             date = today\<rparr>]
      else if core_alerts today ms = []
      then [\<lparr>alert_id = 1, alert_type = ''info'',
             message = ''All department metrics are within acceptable range'',
             date = today\<rparr>]
      else []) \<and>
   (0 < pending_count ms \<and> core_alerts today ms = [] \<longrightarrow>
      generate_alerts today ms =
        [\<lparr>alert_id = 1, alert_type = ''info'',
          message = string_of_nat (pending_count ms) @ '' mark entries are still pending review'',
          date = today\<rparr>])"
proof -
  have a: "generate_alerts today ms =
     (if 0 < pending_count ms
      then core_alerts today ms @
           [\<lparr>alert_id = length (core_alerts today ms) + 1, alert_type = ''info'',
             message = string_of_nat (pending_count ms) @ '' mark entries are still pending review'',
             date = today\<rparr>]
      else if core_alerts today ms = []
      then [\<lparr>alert_id = 1, alert_type = ''info'',
             message = ''All department metrics are within acceptable range'',
             date = today\<rparr>]
      else core_alerts today ms)"
    by (simp add: generate_alerts_spec Let_def pending_alerts_def pending_alert_def
        all_clear_alert_def)
  have t: "\<forall>a \<in> set (core_alerts today ms). alert_type a = ''warning'' \<or> alert_type a = ''critical''"
    by (auto simp: core_alerts_def cohort_alerts_def critical_alert_def
        dest: student_warnings_types subject_warnings_types split: if_splits)
  have p: "generate_alerts today ms =
        [\<lparr>alert_id = 1, alert_type = ''info'',
          message = string_of_nat (pending_count ms) @ '' mark entries are still pending review'',
          date = today\<rparr>]" if "0 < pending_count ms \<and> core_alerts today ms = []"
    using that a by simp
  have "filter (\<lambda>a. alert_type a = ''info'') (core_alerts today ms) = []"
    by (auto simp: filter_empty_conv dest: core_alerts_types)
  then have i: "filter (\<lambda>a. alert_type a = ''info'') (generate_alerts today ms) =
     (if 0 < pending_count ms
      then [\<lparr>alert_id = length (core_alerts today ms) + 1, alert_type = ''info'',
             message = string_of_nat (pending_count ms) @ '' mark entries are still pending review'',
             date = today\<rparr>]
      else if core_alerts today ms = []
      then [\<lparr>alert_id = 1, alert_type = ''info'',
             message = ''All department metrics are within acceptable range'',
             date = today\<rparr>]
      else [])"
    unfolding a by simp
  show ?thesis
    using a t p i core_alerts_code [of today ms] core_alerts_empty_iff [of today ms]
    by (simp add: pending_count_def)
qed

theorem pending_and_all_clear_witness:
  "pending_count three_pending = 3 \<and>
   generate_alerts ''1/1/2026'' three_pending =
     [\<lparr>alert_id = 1, alert_type = ''info'',
       message = ''3 mark entries are still pending review'', date = ''1/1/2026''\<rparr>]"
proof -
  have pc: "pending_count three_pending = 3"
    by (simp add: pending_count_def three_pending_def overview_row_def)
  have "at_risk_students three_pending = []"
    by (simp add: three_pending_def example_rows)
  then have "{s \<in> studentId ` set three_pending. at_risk three_pending s} = {}"
    using length_at_risk_students [of three_pending] by simp
  then have "core_alerts ''1/1/2026'' three_pending = []"
    using pending_and_all_clear [of "''1/1/2026''" three_pending] three_pending_low_subjects
    by blast
  then have "generate_alerts ''1/1/2026'' three_pending =
     [\<lparr>alert_id = 1, alert_type = ''info'',
       message = string_of_nat (pending_count three_pending) @
                 '' mark entries are still pending review'',
       date = ''1/1/2026''\<rparr>]"
    using pending_and_all_clear [of "''1/1/2026''" three_pending] pc by simp
  then show ?thesis
    using pc by (simp add: string_of_nat.simps digit_char_def)
qed

subsection \<open>C7: four students\<close>




subsection \<open>C8: adding a faculty member\<close>

text \<open>
  Claim C8, as amended. \<open>POST /faculty\<close> hashes the supplied password, or \<open>password123\<close>
  when the password is omitted or empty, and hands \<open>User.create\<close> one row with the role
  \<open>FACULTY\<close> and the hash as its password, never the plain text. When both collaborators
  succeed the response has status 201 and a body with the message and the id of the new
  row, and only then; any failure is answered with status 500 and leaves the store as it
  was.
\<close>

theorem post_faculty_created:
  "(hash (effective_password body) 10 = Inr h \<and> create (faculty_row body h) db = Inr (newId, db')
      \<longrightarrow> post_faculty hash create body db =
            (Reply 201 \<lparr>created_message = ''Faculty created successfully'',
                         created_id = newId\<rparr>, db')) \<and>
   (post_faculty hash create body db = (Reply 201 c, db'')
      \<longrightarrow> (\<exists>h. hash (effective_password body) 10 = Inr h \<and>
               create (faculty_row body h) db = Inr (created_id c, db'') \<and>
               user_role (faculty_row body h) = ''FACULTY'' \<and>
               user_password (faculty_row body h) = h \<and>
               created_message c = ''Faculty created successfully'')) \<and>
   (\<forall>code text. fst (post_faculty hash create body db) = Failure code text \<longrightarrow>
      code = 500 \<and> snd (post_faculty hash create body db) = db)"
  by (auto simp: post_faculty_def faculty_row_def effective_password_def str_or_def
      split: sum.splits option.splits if_splits)

theorem post_faculty_created_witness:
  "post_faculty example_hash example_create (example_body (Some ''s3cret'')) [] =
     (Reply 201 \<lparr>created_message = ''Faculty created successfully'', created_id = 1\<rparr>,
      [faculty_row (example_body (Some ''s3cret'')) ''hashed:s3cret'']) \<and>
   post_faculty example_hash example_create (example_body None) [] =
     (Reply 201 \<lparr>created_message = ''Faculty created successfully'', created_id = 1\<rparr>,
      [faculty_row (example_body None) ''hashed:password123''])"
proof -
  have h: "example_hash (effective_password (example_body (Some ''s3cret''))) 10 =
      Inr ''hashed:s3cret''"
    "example_hash (effective_password (example_body None)) 10 = Inr ''hashed:password123''"
    by (simp_all add: example_hash_def effective_password_def example_body_def)
  have c: "example_create (faculty_row b x) [] = Inr (1, [faculty_row b x])" for b x
    by (simp add: example_create_def)
  show ?thesis
    using post_faculty_created [of example_hash "example_body (Some ''s3cret'')"
        "''hashed:s3cret''" example_create "[]" 1 "[faculty_row (example_body (Some ''s3cret'')) ''hashed:s3cret'']"]
      post_faculty_created [of example_hash "example_body None"
        "''hashed:password123''" example_create "[]" 1 "[faculty_row (example_body None) ''hashed:password123'']"]
      h c by blast
qed

text \<open>
  The claim C8 as first stated uses the default only when the password is omitted. A
  body with the empty password is stored with the hash of \<open>password123\<close>.
\<close>

theorem post_faculty_created_counterexample:
  "password (example_body (Some '''')) = Some '''' \<and>
   example_hash '''' 10 = Inr ''hashed:'' \<and>
   map user_password (snd (post_faculty example_hash example_create (example_body (Some '''')) [])) =
     [''hashed:password123'']"
  by (simp add: post_faculty_def example_hash_def example_create_def example_body_def str_or_def)

subsection \<open>C9: students without a joined student object\<close>

text \<open>
  Claim C9. A student whose rows have no joined student object counts neither for the
  number of students at risk nor for the warnings, whatever the student's mean: the loop
  over the students ends in the same state, and the critical alert is decided alike,
  with the rows of that student removed from the input.
\<close>

theorem unjoined_student_excluded:
  assumes "\<forall>m \<in> set ms. studentId m = s \<longrightarrow> student m = None"
  shows "student_stage today ms = student_stage today (filter (\<lambda>m. studentId m \<noteq> s) ms) \<and>
    check_cohort today (student_stage today ms) =
      check_cohort today (student_stage today (filter (\<lambda>m. studentId m \<noteq> s) ms)) \<and>
    fst (student_stage today ms) =
      card {k \<in> studentId ` set ms. student_mean ms k < 18 \<and> joined_student ms k \<noteq> None} \<and>
    s \<notin> {k \<in> studentId ` set ms. student_mean ms k < 18 \<and> joined_student ms k \<noteq> None}"
proof -
  have n: "\<not> at_risk ms s"
    using assms by (rule unjoined_not_at_risk)
  have e: "student_stage today ms = student_stage today (filter (\<lambda>m. studentId m \<noteq> s) ms)"
    by (simp add: student_stage_spec at_risk_students_without [OF n]
        student_warnings_without [OF n])
  have c: "fst (student_stage today ms) =
      card {k \<in> studentId ` set ms. student_mean ms k < 18 \<and> joined_student ms k \<noteq> None}"
    using length_at_risk_students [of ms] by (simp add: student_stage_spec at_risk_def)
  show ?thesis
    using n e c by (simp add: at_risk_def)
qed

theorem unjoined_student_excluded_witness:
  "student_mean one_unjoined 6 = 6 \<and>
   student_stage ''1/1/2026'' one_unjoined =
     student_stage ''1/1/2026'' [overview_row 2 11 ''APPROVED'' None (Some ''Asha'')] \<and>
   fst (student_stage ''1/1/2026'' one_unjoined) = 1"
proof -
  have h: "\<forall>m \<in> set one_unjoined. studentId m = 6 \<longrightarrow> student m = None"
    by (simp add: one_unjoined_def overview_row_def)
  have f: "filter (\<lambda>m. studentId m \<noteq> 6) one_unjoined =
      [overview_row 2 11 ''APPROVED'' None (Some ''Asha'')]"
    by (simp add: one_unjoined_def overview_row_def)
  have m: "student_mean one_unjoined 6 = 6"
    by (simp add: one_unjoined_def overview_row_def student_mean_def records_of_def score_def
        num_or_def)
  have "at_risk_students one_unjoined = [2]"
    by (simp add: one_unjoined_def example_rows)
  then have c: "card {k \<in> studentId ` set one_unjoined. at_risk one_unjoined k} = 1"
    using length_at_risk_students [of one_unjoined] by simp
  from unjoined_student_excluded [OF h, of "''1/1/2026''"]
  have "student_stage ''1/1/2026'' one_unjoined =
      student_stage ''1/1/2026'' (filter (\<lambda>m. studentId m \<noteq> 6) one_unjoined)"
    and "fst (student_stage ''1/1/2026'' one_unjoined) =
      card {k \<in> studentId ` set one_unjoined.
            student_mean one_unjoined k < 18 \<and> joined_student one_unjoined k \<noteq> None}"
    by blast+
  then show ?thesis
    using m c unfolding f at_risk_def by simp
qed

subsection \<open>C10: the default department\<close>

text \<open>
  Claim C10. Without a \<open>department\<close> query parameter \<open>GET /overview\<close> reads the marks and
  counts the faculty of the department \<open>CS\<close>: it answers as it does for
  \<open>department=CS\<close>.
\<close>

theorem overview_default_department:
  "overview_handler today findMarks countFaculty None =
     overview_handler today findMarks countFaculty (Some ''CS'') \<and>
   overview_handler today findMarks countFaculty None =
     (case findMarks ''CS'' of
        None \<Rightarrow> Failure 500 ''Internal server error''
      | Some ms \<Rightarrow>
          (case countFaculty ''CS'' of
             None \<Rightarrow> Failure 500 ''Internal server error''
           | Some facultyCount \<Rightarrow> Reply 200 (overview today ms facultyCount)))"
  by (simp add: overview_handler_def Let_def)

section \<open>Further properties of the overview\<close>

text \<open>
  The order of the alert list: the critical alert if any, the warnings on students, the
  warnings on subjects, the pending alert if any; the all-clear alert alone when these are
  none. In the order of their generation (the warnings on students before the critical
  alert) the ids count up from 1.
\<close>

theorem alert_list_order:
  "generate_alerts today ms =
     (let listed =
            cohort_alerts today ms @ student_warnings today ms @
            subject_warnings today ms
              (length (cohort_alerts today ms) + length (student_warnings today ms) + 1) @
            pending_alerts today ms
              (length (cohort_alerts today ms) + length (student_warnings today ms) +
               length (low_subjects ms) + 1)
      in if listed = [] then [all_clear_alert today] else listed) \<and>
   map alert_id
     (student_warnings today ms @ cohort_alerts today ms @
      subject_warnings today ms
        (length (cohort_alerts today ms) + length (student_warnings today ms) + 1) @
      pending_alerts today ms
        (length (cohort_alerts today ms) + length (student_warnings today ms) +
         length (low_subjects ms) + 1)) =
     [1..<length (cohort_alerts today ms) + length (student_warnings today ms) +
          length (low_subjects ms) +
          length (pending_alerts today ms
            (length (cohort_alerts today ms) + length (student_warnings today ms) +
             length (low_subjects ms) + 1)) + 1]"
proof -
  define c where "c = cohort_alerts today ms"
  define w where "w = student_warnings today ms"
  define j where "j = subject_warnings today ms (length c + length w + 1)"
  define p where "p = pending_alerts today ms (length c + length w + length (low_subjects ms) + 1)"
  have lj: "length j = length (low_subjects ms)"
    by (simp add: j_def)
  have core: "core_alerts today ms = c @ w @ j"
    by (simp add: core_alerts_def c_def w_def j_def)
  have "length (core_alerts today ms) + 1 = length c + length w + length (low_subjects ms) + 1"
    by (simp add: core lj)
  then have "core_alerts today ms @ pending_alerts today ms (length (core_alerts today ms) + 1) =
      c @ w @ j @ p"
    by (simp only: core p_def append_assoc)
  then have g: "generate_alerts today ms =
      (if c @ w @ j @ p = [] then [all_clear_alert today] else c @ w @ j @ p)"
    by (simp only: generate_alerts_spec Let_def)
  have u: "[i..<i + a] @ [i + a..<i + a + b] = [i..<i + a + b]" for i a b :: nat
    using upt_add_eq_append [of i "i + a" b] by simp
  have u': "i \<le> k \<Longrightarrow> [i..<k] @ [k..<k + b] = [i..<k + b]" for i k b :: nat
    using upt_add_eq_append [of i k b] by simp
  have idw: "map alert_id w = [1..<1 + length w]"
    by (simp add: w_def student_warnings_ids)
  have idc: "map alert_id c = [1 + length w..<1 + length w + length c]"
    by (simp add: c_def cohort_alerts_def critical_alert_def w_def length_student_warnings)
  have idj: "map alert_id j = [1 + length w + length c..<1 + length w + length c + length j]"
    using subject_warnings_ids [of today ms "length c + length w + 1"]
    by (simp add: j_def add.commute add.left_commute)
  have idp: "map alert_id p =
      [1 + length w + length c + length j..<1 + length w + length c + length j + length p]"
    using pending_alerts_ids [of today ms "length c + length w + length (low_subjects ms) + 1"]
    by (simp add: p_def lj add.commute add.left_commute)
  have "map alert_id (w @ c @ j @ p) =
      (([1..<1 + length w] @ [1 + length w..<1 + length w + length c]) @
       [1 + length w + length c..<1 + length w + length c + length j]) @
      [1 + length w + length c + length j..<1 + length w + length c + length j + length p]"
    by (simp only: map_append idw idc idj idp append_assoc)
  also have "\<dots> = [1..<1 + length w + length c + length j + length p]"
    by (simp only: u [of 1] u' le_add1 trans_le_add1)
  also have "1 + length w + length c + length j + length p = length (c @ w @ j @ p) + 1"
    by simp
  finally have gen: "map alert_id (w @ c @ j @ p) = [1..<length (c @ w @ j @ p) + 1]" .
  have len: "length (c @ w @ j @ p) + 1 =
      length c + length w + length (low_subjects ms) + length p + 1"
    by (simp add: lj)
  have gen': "map alert_id (w @ c @ j @ p) =
      [1..<length c + length w + length (low_subjects ms) + length p + 1]"
    using gen unfolding len .
  show ?thesis
    using g gen' unfolding c_def w_def j_def p_def Let_def by blast
qed

text \<open>
  The response passes the faculty count through, and on no rows its alerts are the
  all-clear alert alone.
\<close>

theorem overview_response:
  "ov_facultyCount (overview today ms facultyCount) = facultyCount \<and>
   ov_gradeDistribution (overview today ms facultyCount) = gradeDistribution ms \<and>
   ov_alerts (overview today ms facultyCount) = generate_alerts today ms \<and>
   ov_alerts (overview today [] facultyCount) =
     [\<lparr>alert_id = 1, alert_type = ''info'',
       message = ''All department metrics are within acceptable range'', date = today\<rparr>]"
proof -
  have "at_risk_students [] = []" "low_subjects [] = []" "pending_count [] = 0"
    by (simp_all add: at_risk_students_def student_keys_def low_subjects_def subject_keys_def
        key_order_def pending_count_def map_filter_simps)
  then have "generate_alerts today [] = [all_clear_alert today]"
    by (simp add: generate_alerts_spec core_alerts_def cohort_alerts_def student_warnings_def
        subject_warnings_def pending_alerts_def)
  then show ?thesis
    by (simp add: overview_def all_clear_alert_def)
qed

end
